theory Spec2Isabelle
  imports Main "HOL-Library.Sublist" "HOL-Library.Multiset" "HOL-Library.Char_ord"
    "HOL-Library.List_Lexorder" "HOL-Library.Product_Lexorder"
begin

section \<open>Text\<close>

text \<open>
  A Python \<open>str\<close> is modelled as a \<^typ>\<open>string\<close>, one \<^typ>\<open>char\<close> per character, so
  \<^const>\<open>length\<close> counts what \<open>len\<close> counts. A \<^typ>\<open>char\<close> has a code point below 256:
  the model covers text in that range, on which the library functions below are those of
  CPython (\<open>str.strip\<close>, \<open>str.split\<close>, \<open>str.lower\<close>, \<open>str.replace\<close>, \<open>str.title\<close>,
  \<open>in\<close> and \<open>str.startswith\<close>). Two lower-case letters, U+00B5 and U+00FF, have their
  title-case forms beyond the range (U+039C and U+0178): there \<open>to_title\<close>, and with it
  \<open>str_title\<close>, has no value.
\<close>

definition ord :: "char \<Rightarrow> nat" where
  "ord c = of_char c"

definition chr :: "nat \<Rightarrow> char" where
  "chr n = char_of n"

abbreviation nl :: char where
  "nl \<equiv> CHR 0x0A"

definition isspace :: "char \<Rightarrow> bool" where
  "isspace c = (let n = ord c in
     (9 \<le> n \<and> n \<le> 13) \<or> (28 \<le> n \<and> n \<le> 32) \<or> n = 133 \<or> n = 160)"

definition isupper :: "char \<Rightarrow> bool" where
  "isupper c = (let n = ord c in
     (65 \<le> n \<and> n \<le> 90) \<or> (192 \<le> n \<and> n \<le> 214) \<or> (216 \<le> n \<and> n \<le> 222))"

definition islower :: "char \<Rightarrow> bool" where
  "islower c = (let n = ord c in
     (97 \<le> n \<and> n \<le> 122) \<or> n = 170 \<or> n = 181 \<or> n = 186 \<or>
     (223 \<le> n \<and> n \<le> 246) \<or> (248 \<le> n \<and> n \<le> 255))"

definition iscased :: "char \<Rightarrow> bool" where
  "iscased c = (isupper c \<or> islower c)"

definition to_lower :: "char \<Rightarrow> char" where
  "to_lower c = (if isupper c then chr (ord c + 32) else c)"

definition to_title :: "char \<Rightarrow> string option" where
  "to_title c = (let n = ord c in
     if (97 \<le> n \<and> n \<le> 122) \<or> (224 \<le> n \<and> n \<le> 246) \<or> (248 \<le> n \<and> n \<le> 254)
     then Some [chr (n - 32)]
     else if n = 223 then Some ''Ss''
     else if n = 181 \<or> n = 255 then None
     else Some [c])"

text \<open>\<open>s.lower()\<close>\<close>

definition lower :: "string \<Rightarrow> string" where
  "lower s = map to_lower s"

text \<open>\<open>s.title()\<close>: a letter that follows a cased character is lower-cased, any other
  letter is title-cased.\<close>

fun title_from :: "bool \<Rightarrow> string \<Rightarrow> string option" where
  "title_from previous_is_cased [] = Some []"
| "title_from previous_is_cased (c # cs) =
     (case (if previous_is_cased then Some [to_lower c] else to_title c) of
        None \<Rightarrow> None
      | Some t \<Rightarrow>
          (case title_from (iscased c) cs of
             None \<Rightarrow> None
           | Some rest \<Rightarrow> Some (t @ rest)))"

definition str_title :: "string \<Rightarrow> string option" where
  "str_title s = title_from False s"

text \<open>\<open>s.strip()\<close> and \<open>s.lstrip(chars)\<close>\<close>

definition strip :: "string \<Rightarrow> string" where
  "strip s = rev (dropWhile isspace (rev (dropWhile isspace s)))"

definition lstrip :: "string \<Rightarrow> string \<Rightarrow> string" where
  "lstrip chars s = dropWhile (\<lambda>c. c \<in> set chars) s"

text \<open>\<open>s.startswith(p)\<close> is \<^term>\<open>prefix p s\<close> and \<open>p in s\<close> is \<^term>\<open>sublist p s\<close>.\<close>

text \<open>\<open>s.split()\<close>: the maximal runs of characters that are not whitespace. The first
  argument is the run being read, latest character first.\<close>

fun split_ws_from :: "string \<Rightarrow> string \<Rightarrow> string list" where
  "split_ws_from word [] = (if word = [] then [] else [rev word])"
| "split_ws_from word (c # cs) =
     (if isspace c
      then (if word = [] then split_ws_from [] cs else rev word # split_ws_from [] cs)
      else split_ws_from (c # word) cs)"

definition split_ws :: "string \<Rightarrow> string list" where
  "split_ws s = split_ws_from [] s"

text \<open>\<open>s.split(sep)\<close>, scanning from the left for occurrences of \<open>sep\<close> that do not
  overlap. Python raises \<open>ValueError\<close> on an empty separator; the program passes the
  literals \<open>"\n"\<close> and \<open>"\n\n"\<close> only.\<close>

function split_from :: "string \<Rightarrow> string \<Rightarrow> string \<Rightarrow> string list" where
  "split_from sep piece [] = [rev piece]"
| "split_from sep piece (c # cs) =
     (if sep \<noteq> [] \<and> prefix sep (c # cs)
      then rev piece # split_from sep [] (drop (length sep) (c # cs))
      else split_from sep (c # piece) cs)"
  by pat_completeness auto
termination
  by (relation "measure (\<lambda>(sep, piece, s). length s)") auto

definition split :: "string \<Rightarrow> string \<Rightarrow> string list" where
  "split sep s = split_from sep [] s"

text \<open>\<open>s.replace(old, new)\<close> for a non-empty \<open>old\<close>.\<close>

function replace :: "string \<Rightarrow> string \<Rightarrow> string \<Rightarrow> string" where
  "replace old new [] = []"
| "replace old new (c # cs) =
     (if old \<noteq> [] \<and> prefix old (c # cs)
      then new @ replace old new (drop (length old) (c # cs))
      else c # replace old new cs)"
  by pat_completeness auto
termination
  by (relation "measure (\<lambda>(old, new, s). length s)") auto

text \<open>\<open>Path(p).stem\<close> (pathlib, POSIX flavour): the last component of the path, without
  its last suffix. A leading or a trailing dot starts no suffix.\<close>

definition path_name :: "string \<Rightarrow> string" where
  "path_name p =
     (case filter (\<lambda>part. part \<noteq> [] \<and> part \<noteq> ''.'') (split ''/'' p) of
        [] \<Rightarrow> []
      | part # parts \<Rightarrow> last (part # parts))"

definition rfind :: "char \<Rightarrow> string \<Rightarrow> nat option" where
  "rfind c s =
     (if c \<in> set s then Some (length s - 1 - length (takeWhile (\<lambda>x. x \<noteq> c) (rev s)))
      else None)"

definition stem :: "string \<Rightarrow> string" where
  "stem p =
     (let name = path_name p in
      case rfind (CHR ''.'') name of
        None \<Rightarrow> name
      | Some i \<Rightarrow> if 0 < i \<and> i + 1 < length name then take i name else name)"

section \<open>Document records\<close>

record header =
  level :: nat
  text' :: string

text \<open>The derived fields, the dictionary that \<open>extract_metadata\<close> returns.\<close>

record metadata =
  title :: string
  category :: string
  tags :: "string list"
  summary :: string
  headers :: "header list"

text \<open>A naive \<open>datetime\<close>; the key orders it as Python compares two of them.\<close>

record datetime =
  year :: nat
  month :: nat
  day :: nat
  hour :: nat
  minute :: nat
  second :: nat
  microsecond :: nat

text \<open>A record of \<open>scan_documents\<close>: the file-system facts, updated with the metadata.\<close>

record document = metadata +
  path :: string
  full_path :: string
  name :: string
  modified :: datetime
  size_bytes :: nat

section \<open>Configuration\<close>

text \<open>The dictionary literal, in the order of its keys (the order a Python dictionary
  iterates in).\<close>

definition CATEGORY_PATTERNS :: "(string \<times> string list) list" where
  "CATEGORY_PATTERNS =
     [(''Authentication System'', [''auth'', ''login'', ''signin'', ''signup'', ''session'']),
      (''Admin & Management'', [''admin'', ''dashboard'', ''management'']),
      (''Development & UI'', [''ui'', ''component'', ''theme'', ''development'', ''log'']),
      (''API Documentation'', [''api'', ''endpoint'', ''route'']),
      (''Security'', [''security'', ''permission'', ''rate'', ''audit'']),
      (''Configuration'', [''config'', ''setup'', ''env'', ''settings'']),
      (''Notes & Memos'', [''memo'', ''note'', ''todo'', ''reminder''])]"

definition tag_patterns :: "string list" where
  "tag_patterns =
     [''authentication'', ''ui'', ''api'', ''security'', ''admin'', ''development'',
      ''configuration'']"

section \<open>Metadata extraction\<close>

text \<open>An exception, with the text that \<open>str(e)\<close> gives.\<close>

datatype exn = Exception string

text \<open>The title loop over \<open>lines[:10]\<close>: the first line that starts with \<open>"# "\<close>.\<close>

fun first_heading :: "string list \<Rightarrow> string option" where
  "first_heading [] = None"
| "first_heading (line # rest) =
     (if prefix ''# '' line then Some (strip (drop 2 line)) else first_heading rest)"

text \<open>The header loop. \<open>line.split()[0]\<close> raises \<open>IndexError\<close> on a line without a
  word; the loop stops there, with the headers appended so far.\<close>

fun extract_headers :: "string list \<Rightarrow> header list \<Rightarrow> header list \<times> exn option" where
  "extract_headers [] hs = (hs, None)"
| "extract_headers (line # rest) hs =
     (if prefix ''#'' line
      then (case split_ws line of
              [] \<Rightarrow> (hs, Some (Exception ''list index out of range''))
            | word # _ \<Rightarrow>
                (let level = length word
                 in extract_headers rest
                      (if level \<le> 3
                       then hs @ [\<lparr>level = level, text' = strip (lstrip ''#'' line)\<rparr>]
                       else hs)))
      else extract_headers rest hs)"

text \<open>The category loop: the first category with a pattern in the content, then
  \<open>break\<close>.\<close>

fun find_category :: "(string \<times> string list) list \<Rightarrow> string \<Rightarrow> string option" where
  "find_category [] content_lower = None"
| "find_category ((cat, patterns) # rest) content_lower =
     (if list_ex (\<lambda>pattern. sublist pattern content_lower) patterns then Some cat
      else find_category rest content_lower)"

definition find_tags :: "string \<Rightarrow> string list" where
  "find_tags content_lower =
     map (\<lambda>tag. ''#'' @ tag) (filter (\<lambda>tag. sublist tag content_lower) tag_patterns)"

definition paragraphs :: "string \<Rightarrow> string list" where
  "paragraphs content =
     map strip (filter (\<lambda>p. strip p \<noteq> [] \<and> \<not> prefix ''#'' (strip p))
       (split [nl, nl] content))"

definition first_paragraph_summary :: "string \<Rightarrow> string option" where
  "first_paragraph_summary content =
     (case paragraphs content of
        [] \<Rightarrow> None
      | p # _ \<Rightarrow> Some (if length p > 200 then take 200 p @ ''...'' else p))"

text \<open>The body of the \<open>try\<close> block, on the result of opening and reading the file. It
  returns the dictionary as the body left it and the exception that ended it, if any.\<close>

definition try_body :: "metadata \<Rightarrow> exn + string \<Rightarrow> metadata \<times> exn option" where
  "try_body metadata0 read_result =
     (case read_result of
        Inl e \<Rightarrow> (metadata0, Some e)
      | Inr content \<Rightarrow>
          (let lines = split [nl] content;
               metadata1 = (case first_heading (take 10 lines) of
                              None \<Rightarrow> metadata0
                            | Some t \<Rightarrow> metadata0\<lparr>title := t\<rparr>);
               (hs, raised) = extract_headers lines (headers metadata1);
               metadata2 = metadata1\<lparr>headers := hs\<rparr>
           in case raised of
                Some e \<Rightarrow> (metadata2, Some e)
              | None \<Rightarrow>
                  (let content_lower = lower content;
                       metadata3 = (case find_category CATEGORY_PATTERNS content_lower of
                                      None \<Rightarrow> metadata2
                                    | Some c \<Rightarrow> metadata2\<lparr>category := c\<rparr>);
                       metadata4 = metadata3\<lparr>tags := tags metadata3 @ find_tags content_lower\<rparr>;
                       metadata5 = (case first_paragraph_summary content of
                                      None \<Rightarrow> metadata4
                                    | Some s \<Rightarrow> metadata4\<lparr>summary := s\<rparr>)
                   in (metadata5, None))))"

text \<open>The default title,
  \<open>Path(file_path).stem.replace("_", " ").replace("-", " ").title()\<close>.\<close>

definition default_title :: "string \<Rightarrow> string option" where
  "default_title file_path =
     str_title (replace ''-'' '' '' (replace ''_'' '' '' (stem file_path)))"

text \<open>The file paths of the model: those whose default title has a value. On such a
  path the second branch below is never taken.\<close>

typedef pathname = "{p. default_title p \<noteq> None}"
  morphisms pathname_text Pathname
  by (rule exI [of _ "[]"])
    (simp add: default_title_def stem_def path_name_def split_def rfind_def str_title_def)

definition default_metadata :: "pathname \<Rightarrow> metadata" where
  "default_metadata file_path =
     \<lparr>title = (case default_title (pathname_text file_path) of Some t \<Rightarrow> t | None \<Rightarrow> []),
      category = ''Uncategorized'',
      tags = [],
      summary = [],
      headers = []\<rparr>"

text \<open>\<open>extract_metadata\<close>: the dictionary returned and the lines printed. The second
  argument is what \<open>open(file_path, 'r')\<close> and \<open>f.read()\<close> give: the content, or the
  exception raised.\<close>

definition extract_metadata :: "pathname \<Rightarrow> exn + string \<Rightarrow> metadata \<times> string list" where
  "extract_metadata file_path read_result =
     (let (metadata, raised) = try_body (default_metadata file_path) read_result
      in (metadata,
          case raised of
            None \<Rightarrow> []
          | Some (Exception msg) \<Rightarrow>
              [''Error processing '' @ pathname_text file_path @ '': '' @ msg]))"

section \<open>Dates and numbers as text\<close>

text \<open>\<open>str(n)\<close> of a natural number, and the zero-padded fields of \<open>strftime\<close>.\<close>

fun str_nat :: "nat \<Rightarrow> string" where
  "str_nat n =
     (if n < 10 then [chr (48 + n)] else str_nat (n div 10) @ [chr (48 + n mod 10)])"

definition zfill :: "nat \<Rightarrow> string \<Rightarrow> string" where
  "zfill width s = replicate (width - length s) (CHR ''0'') @ s"

text \<open>\<open>strftime('%Y-%m-%d')\<close> and \<open>strftime('%Y-%m-%d %H:%M')\<close>, as the C library of
  Linux formats them: \<open>%Y\<close> is the year as it is, without padding.\<close>

definition strftime_date :: "datetime \<Rightarrow> string" where
  "strftime_date d =
     str_nat (year d) @ ''-'' @ zfill 2 (str_nat (month d)) @ ''-'' @
     zfill 2 (str_nat (day d))"

definition strftime_minute :: "datetime \<Rightarrow> string" where
  "strftime_minute d =
     strftime_date d @ '' '' @ zfill 2 (str_nat (hour d)) @ '':'' @
     zfill 2 (str_nat (minute d))"

text \<open>\<open>isoformat()\<close>, which writes the year on four digits.\<close>

definition isoformat :: "datetime \<Rightarrow> string" where
  "isoformat d =
     zfill 4 (str_nat (year d)) @ ''-'' @ zfill 2 (str_nat (month d)) @ ''-'' @
     zfill 2 (str_nat (day d)) @ ''T'' @ zfill 2 (str_nat (hour d)) @ '':'' @
     zfill 2 (str_nat (minute d)) @ '':'' @ zfill 2 (str_nat (second d)) @
     (if microsecond d = 0 then [] else ''.'' @ zfill 6 (str_nat (microsecond d)))"

definition datetime_key :: "datetime \<Rightarrow> nat \<times> nat \<times> nat \<times> nat \<times> nat \<times> nat \<times> nat" where
  "datetime_key d = (year d, month d, day d, hour d, minute d, second d, microsecond d)"

section \<open>Index generation\<close>

text \<open>The headings of the index carry pictographs (U+1F4DA, U+1F3AF, U+1F4C1, U+1F4CA,
  and U+1F3F7 with U+FE0F), which lie beyond the range of \<^typ>\<open>char\<close>. Each stands in
  the generated text as the bytes of its UTF-8 encoding, as INDEX.md holds it. The
  program only ever appends to the generated text.\<close>

definition BOOKS :: string where
  "BOOKS = [CHR 0xF0, CHR 0x9F, CHR 0x93, CHR 0x9A]"

definition TARGET :: string where
  "TARGET = [CHR 0xF0, CHR 0x9F, CHR 0x8E, CHR 0xAF]"

definition FOLDER :: string where
  "FOLDER = [CHR 0xF0, CHR 0x9F, CHR 0x93, CHR 0x81]"

definition CHART :: string where
  "CHART = [CHR 0xF0, CHR 0x9F, CHR 0x93, CHR 0x8A]"

definition LABEL :: string where
  "LABEL = [CHR 0xF0, CHR 0x9F, CHR 0x8F, CHR 0xB7, CHR 0xEF, CHR 0xB8, CHR 0x8F]"

text \<open>\<open>sep.join(xs)\<close>\<close>

fun join :: "string \<Rightarrow> string list \<Rightarrow> string" where
  "join sep [] = []"
| "join sep [x] = x"
| "join sep (x # y # ys) = x @ sep @ join sep (y # ys)"

text \<open>\<open>xs[0]\<close> and \<open>max(xs, key=key)\<close>, which raise on an empty list. \<open>max\<close> returns
  the first of the greatest elements.\<close>

definition getitem0 :: "'a list \<Rightarrow> exn + 'a" where
  "getitem0 xs = (case xs of [] \<Rightarrow> Inl (Exception ''list index out of range'') | x # _ \<Rightarrow> Inr x)"

fun max_from :: "('a \<Rightarrow> 'k::linorder) \<Rightarrow> 'a \<Rightarrow> 'a list \<Rightarrow> 'a" where
  "max_from key best [] = best"
| "max_from key best (x # xs) = max_from key (if key best < key x then x else best) xs"

definition max_by :: "('a \<Rightarrow> 'k::linorder) \<Rightarrow> 'a list \<Rightarrow> exn + 'a" where
  "max_by key xs =
     (case xs of
        [] \<Rightarrow> Inl (Exception ''max() arg is an empty sequence'')
      | x # rest \<Rightarrow> Inr (max_from key x rest))"

text \<open>\<open>sorted(documents, key=lambda x: x["modified"], reverse=True)\<close>: a stable sort,
  in which documents of equal key keep their order.\<close>

definition sorted_by_date :: "document list \<Rightarrow> document list" where
  "sorted_by_date documents = rev (sort_key (\<lambda>x. datetime_key (modified x)) (rev documents))"

text \<open>The dictionary \<open>docs_by_category\<close>, its keys in the order of their insertion.\<close>

definition add_to_category ::
  "document \<Rightarrow> (string \<times> document list) list \<Rightarrow> (string \<times> document list) list" where
  "add_to_category doc docs_by_category =
     (let cat = category doc;
          d = (if cat \<notin> set (map fst docs_by_category) then docs_by_category @ [(cat, [])]
               else docs_by_category)
      in map (\<lambda>(k, docs). if k = cat then (k, docs @ [doc]) else (k, docs)) d)"

definition group_by_category :: "document list \<Rightarrow> (string \<times> document list) list" where
  "group_by_category documents = fold add_to_category documents []"

text \<open>The entries of the Quick Access section, one for each of the first five documents
  by date.\<close>

definition quick_entry :: "document \<Rightarrow> string" where
  "quick_entry doc =
     ''- ['' @ title doc @ '']('' @ path doc @ '') - '' @ strftime_date (modified doc) @ [nl]"

definition quick_access :: "document list \<Rightarrow> string list" where
  "quick_access docs_by_date = map quick_entry (take 5 docs_by_date)"

text \<open>The sections by category. \<open>docs_by_category[category]\<close> raises \<open>KeyError\<close> on a
  missing key, with the quoted key as its text.\<close>

definition category_entry :: "document \<Rightarrow> string" where
  "category_entry doc =
     (let summary_part = (if summary doc \<noteq> [] then '' - '' @ take 60 (summary doc) @ ''...''
                          else [])
      in ''- ['' @ title doc @ '']('' @ path doc @ '')'' @ summary_part @ [nl])"

fun category_sections :: "(string \<times> document list) list \<Rightarrow> string list \<Rightarrow> exn + string" where
  "category_sections docs_by_category [] = Inr []"
| "category_sections docs_by_category (cat # cats) =
     (case map_of docs_by_category cat of
        None \<Rightarrow> Inl (Exception ([CHR 0x27] @ cat @ [CHR 0x27]))
      | Some docs \<Rightarrow>
          (case category_sections docs_by_category cats of
             Inl e \<Rightarrow> Inl e
           | Inr rest \<Rightarrow>
               Inr (''### '' @ cat @ [nl] @ concat (map category_entry (sort_key name docs)) @
                    [nl] @ rest)))"

text \<open>The two guarded fields of the statistics.\<close>

definition last_update :: "document list \<Rightarrow> exn + string" where
  "last_update docs_by_date =
     (if docs_by_date \<noteq> []
      then (case getitem0 docs_by_date of
              Inl e \<Rightarrow> Inl e
            | Inr doc \<Rightarrow> Inr (strftime_minute (modified doc)))
      else Inr ''N/A'')"

definition largest_document :: "document list \<Rightarrow> exn + string" where
  "largest_document documents =
     (if documents \<noteq> []
      then (case max_by size_bytes documents of Inl e \<Rightarrow> Inl e | Inr doc \<Rightarrow> Inr (name doc))
      else Inr ''N/A'')"

definition collect_tags :: "document list \<Rightarrow> string set" where
  "collect_tags documents = fold (\<lambda>doc all_tags. all_tags \<union> set (tags doc)) documents {}"

text \<open>The text up to the current time, and the text after it.\<close>

definition index_head :: string where
  "index_head = ''# '' @ BOOKS @ '' Markdown Brain Index'' @ [nl, nl] @ ''> Last Updated: ''"

definition index_rest :: "document list \<Rightarrow> exn + string" where
  "index_rest documents =
     (let docs_by_date = sorted_by_date documents;
          docs_by_category = group_by_category documents;
          content1 = [nl] @ ''> Total Documents: '' @ str_nat (length documents) @ [nl, nl] @
                     ''## '' @ TARGET @ '' Quick Access'' @ [nl];
          content2 = content1 @ concat (quick_access docs_by_date);
          content3 = content2 @ [nl] @ ''## '' @ FOLDER @ '' By Category'' @ [nl, nl]
      in case category_sections docs_by_category (sort (map fst docs_by_category)) of
           Inl e \<Rightarrow> Inl e
         | Inr sections \<Rightarrow>
        (case last_update docs_by_date of
           Inl e \<Rightarrow> Inl e
         | Inr updated \<Rightarrow>
        (case largest_document documents of
           Inl e \<Rightarrow> Inl e
         | Inr largest \<Rightarrow>
             (let content4 = content3 @ sections @
                    ''## '' @ CHART @ '' Statistics'' @ [nl, nl] @
                    ''- **Total Documents**: '' @ str_nat (length documents) @ [nl] @
                    ''- **Categories**: '' @ str_nat (length docs_by_category) @ [nl] @
                    ''- **Last Update**: '' @ updated @ [nl] @
                    ''- **Largest Document**: '' @ largest @ [nl, nl] @
                    ''## '' @ LABEL @ '' All Tags'' @ [nl];
                  all_tags = collect_tags documents;
                  content5 = (if all_tags \<noteq> {}
                              then content4 @ join '' '' (sorted_list_of_set all_tags) @ [nl]
                              else content4)
              in Inr (content5 @ [nl] @ ''---'' @ [nl] @
                      ''*Auto-generated by update-index.py*'' @ [nl])))))"

text \<open>\<open>generate_index\<close>, with the value of \<open>datetime.now()\<close> as its first argument.\<close>

definition generate_index :: "datetime \<Rightarrow> document list \<Rightarrow> exn + string" where
  "generate_index now documents =
     (case index_rest documents of
        Inl e \<Rightarrow> Inl e
      | Inr rest \<Rightarrow> Inr (index_head @ strftime_minute now @ rest))"

section \<open>Runs of index generation\<close>

text \<open>What a run of \<open>generate_index\<close> takes from its process, beside the documents: the
  clock, and the order in which a set of strings is iterated, which follows the hashes of
  the strings and changes from one process to the next. \<open>sorted(all_tags)\<close> sorts the
  tags as the iteration of the set yields them. The first argument gives, for a set, the
  list of its elements in the order of the iteration of this run.\<close>

definition index_rest_run :: "(string set \<Rightarrow> string list) \<Rightarrow> document list \<Rightarrow> exn + string" where
  "index_rest_run iteration documents =
     (let docs_by_date = sorted_by_date documents;
          docs_by_category = group_by_category documents;
          content1 = [nl] @ ''> Total Documents: '' @ str_nat (length documents) @ [nl, nl] @
                     ''## '' @ TARGET @ '' Quick Access'' @ [nl];
          content2 = content1 @ concat (quick_access docs_by_date);
          content3 = content2 @ [nl] @ ''## '' @ FOLDER @ '' By Category'' @ [nl, nl]
      in case category_sections docs_by_category (sort (map fst docs_by_category)) of
           Inl e \<Rightarrow> Inl e
         | Inr sections \<Rightarrow>
        (case last_update docs_by_date of
           Inl e \<Rightarrow> Inl e
         | Inr updated \<Rightarrow>
        (case largest_document documents of
           Inl e \<Rightarrow> Inl e
         | Inr largest \<Rightarrow>
             (let content4 = content3 @ sections @
                    ''## '' @ CHART @ '' Statistics'' @ [nl, nl] @
                    ''- **Total Documents**: '' @ str_nat (length documents) @ [nl] @
                    ''- **Categories**: '' @ str_nat (length docs_by_category) @ [nl] @
                    ''- **Last Update**: '' @ updated @ [nl] @
                    ''- **Largest Document**: '' @ largest @ [nl, nl] @
                    ''## '' @ LABEL @ '' All Tags'' @ [nl];
                  all_tags = collect_tags documents;
                  content5 = (if all_tags \<noteq> {}
                              then content4 @ join '' '' (sort (iteration all_tags)) @ [nl]
                              else content4)
              in Inr (content5 @ [nl] @ ''---'' @ [nl] @
                      ''*Auto-generated by update-index.py*'' @ [nl])))))"

definition generate_index_run ::
  "(string set \<Rightarrow> string list) \<Rightarrow> datetime \<Rightarrow> document list \<Rightarrow> exn + string" where
  "generate_index_run iteration now documents =
     (case index_rest_run iteration documents of
        Inl e \<Rightarrow> Inl e
      | Inr rest \<Rightarrow> Inr (index_head @ strftime_minute now @ rest))"

section \<open>The metadata snapshot\<close>

text \<open>The values that \<open>json.dump\<close> writes: strings, numbers, lists, and dictionaries
  with their keys in order.\<close>

datatype json = JString string | JInt nat | JList "json list" | JDict "(string \<times> json) list"

definition snapshot_entry :: "document \<Rightarrow> json" where
  "snapshot_entry doc =
     JDict [(''path'', JString (path doc)),
            (''title'', JString (title doc)),
            (''category'', JString (category doc)),
            (''tags'', JList (map JString (tags doc))),
            (''modified'', JString (isoformat (modified doc))),
            (''size'', JInt (size_bytes doc))]"

text \<open>\<open>update_metadata_json\<close>: the object handed to \<open>json.dump\<close>, with the value of
  \<open>datetime.now()\<close> as the first argument.\<close>

definition update_metadata_json :: "datetime \<Rightarrow> document list \<Rightarrow> json" where
  "update_metadata_json now documents =
     JDict [(''last_updated'', JString (isoformat now)),
            (''document_count'', JInt (length documents)),
            (''documents'', JList (map snapshot_entry documents))]"

text \<open>Reading the snapshot back: a field of a dictionary, and the paths of its
  \<open>documents\<close> array.\<close>

definition field :: "string \<Rightarrow> json \<Rightarrow> json option" where
  "field k j = (case j of JDict kvs \<Rightarrow> map_of kvs k | _ \<Rightarrow> None)"

definition snapshot_paths :: "json \<Rightarrow> string list" where
  "snapshot_paths j =
     (case field ''documents'' j of
        Some (JList entries) \<Rightarrow>
          concat (map (\<lambda>e. case field ''path'' e of Some (JString p) \<Rightarrow> [p] | _ \<Rightarrow> []) entries)
      | _ \<Rightarrow> [])"

section \<open>Index generation never raises\<close>

lemma str_nat_0: "str_nat 0 = ''0''"
  by code_simp

lemma category_sections_total:
  "set cats \<subseteq> fst ` set d \<Longrightarrow> \<exists>s. category_sections d cats = Inr s"
proof (induction cats)
  case Nil
  show ?case by simp
next
  case (Cons cat cats)
  from Cons.prems have "cat \<in> fst ` set d" by simp
  then obtain docs where "map_of d cat = Some docs"
    by (meson domD domI map_of_eq_None_iff option.exhaust)
  moreover from Cons obtain s where "category_sections d cats = Inr s" by auto
  ultimately show ?case by simp
qed

lemma last_update_total: "\<exists>s. last_update ds = Inr s"
  by (cases ds) (simp_all add: last_update_def getitem0_def)

lemma largest_document_total: "\<exists>s. largest_document ds = Inr s"
  by (cases ds) (simp_all add: largest_document_def max_by_def)

lemma index_rest_total: "\<exists>s. index_rest documents = Inr s"
proof -
  obtain a where a: "category_sections (group_by_category documents)
      (sort (map fst (group_by_category documents))) = Inr a"
    using category_sections_total [of "sort (map fst (group_by_category documents))"
        "group_by_category documents"]
    by auto
  obtain b where b: "last_update (sorted_by_date documents) = Inr b"
    using last_update_total by blast
  obtain c where c: "largest_document documents = Inr c"
    using largest_document_total by blast
  show ?thesis
    by (simp add: index_rest_def Let_def a b c)
qed

section \<open>Metadata extraction on readable content\<close>

lemma split_ws_from_nonempty: "word \<noteq> [] \<Longrightarrow> split_ws_from word cs \<noteq> []"
  by (induction cs arbitrary: word) auto

lemma split_ws_hash: "prefix ''#'' line \<Longrightarrow> split_ws line \<noteq> []"
proof -
  assume "prefix ''#'' line"
  then obtain rest where line: "line = CHR ''#'' # rest"
    by (cases line) auto
  have "\<not> isspace (CHR ''#'')"
    by (simp add: isspace_def ord_def)
  then show ?thesis
    by (simp add: line split_ws_def split_ws_from_nonempty)
qed

lemma extract_headers_no_raise: "snd (extract_headers lines hs) = None"
proof (induction lines arbitrary: hs)
  case Nil
  show ?case by simp
next
  case (Cons line rest)
  show ?case
  proof (cases "prefix ''#'' line")
    case True
    then obtain word ws where "split_ws line = word # ws"
      using split_ws_hash [of line] by (cases "split_ws line") auto
    with True Cons.IH show ?thesis
      by (simp add: Let_def)
  next
    case False
    with Cons.IH show ?thesis by simp
  qed
qed

lemma try_body_readable:
  "\<exists>t hs. try_body m (Inr content) =
     ((case first_paragraph_summary content of
         None \<Rightarrow> \<lparr>title = t,
                   category = (case find_category CATEGORY_PATTERNS (lower content) of
                                 None \<Rightarrow> category m | Some c \<Rightarrow> c),
                   tags = tags m @ find_tags (lower content),
                   summary = summary m, headers = hs\<rparr>
       | Some s \<Rightarrow> \<lparr>title = t,
                   category = (case find_category CATEGORY_PATTERNS (lower content) of
                                 None \<Rightarrow> category m | Some c \<Rightarrow> c),
                   tags = tags m @ find_tags (lower content),
                   summary = s, headers = hs\<rparr>), None)"
proof -
  let ?lines = "split [nl] content"
  let ?m1 = "case first_heading (take 10 ?lines) of None \<Rightarrow> m | Some t \<Rightarrow> m\<lparr>title := t\<rparr>"
  obtain hs where hs: "extract_headers ?lines (headers ?m1) = (hs, None)"
    using extract_headers_no_raise [of ?lines "headers ?m1"]
    by (cases "extract_headers ?lines (headers ?m1)") auto
  show ?thesis
    unfolding try_body_def
    by (cases m) (simp add: hs Let_def split: option.splits)
qed

lemma category_readable:
  "category (fst (extract_metadata file_path (Inr content))) =
     (case find_category CATEGORY_PATTERNS (lower content) of
        None \<Rightarrow> ''Uncategorized'' | Some c \<Rightarrow> c)"
  using try_body_readable [of "default_metadata file_path" content]
  by (auto simp: extract_metadata_def default_metadata_def split: option.splits)

lemma tags_readable:
  "tags (fst (extract_metadata file_path (Inr content))) = find_tags (lower content)"
  using try_body_readable [of "default_metadata file_path" content]
  by (auto simp: extract_metadata_def default_metadata_def split: option.splits)

lemma summary_readable:
  "summary (fst (extract_metadata file_path (Inr content))) =
     (case first_paragraph_summary content of None \<Rightarrow> [] | Some s \<Rightarrow> s)"
  using try_body_readable [of "default_metadata file_path" content]
  by (auto simp: extract_metadata_def default_metadata_def split: option.splits)

section \<open>The first matching category\<close>

lemma find_category_first:
  "i < length rules \<Longrightarrow> list_ex (\<lambda>p. sublist p cl) (snd (rules ! i)) \<Longrightarrow>
   (\<And>k. k < i \<Longrightarrow> \<not> list_ex (\<lambda>p. sublist p cl) (snd (rules ! k))) \<Longrightarrow>
   find_category rules cl = Some (fst (rules ! i))"
proof (induction rules arbitrary: i)
  case Nil
  then show ?case by simp
next
  case (Cons rule rules)
  obtain c ps where rule: "rule = (c, ps)" by (cases rule)
  show ?case
  proof (cases i)
    case 0
    with Cons.prems(2) rule show ?thesis by simp
  next
    case (Suc j)
    have "\<not> list_ex (\<lambda>p. sublist p cl) ps"
      using Cons.prems(3) [of 0] Suc rule by simp
    moreover have "find_category rules cl = Some (fst (rules ! j))"
    proof (rule Cons.IH)
      show "j < length rules" using Cons.prems(1) Suc by simp
      show "list_ex (\<lambda>p. sublist p cl) (snd (rules ! j))" using Cons.prems(2) Suc by simp
      show "\<not> list_ex (\<lambda>p. sublist p cl) (snd (rules ! k))" if "k < j" for k
        using Cons.prems(3) [of "Suc k"] that Suc by simp
    qed
    ultimately show ?thesis using rule Suc by simp
  qed
qed

lemma find_category_none:
  "(\<And>k. k < length rules \<Longrightarrow> \<not> list_ex (\<lambda>p. sublist p cl) (snd (rules ! k))) \<Longrightarrow>
   find_category rules cl = None"
proof (induction rules)
  case Nil
  show ?case by simp
next
  case (Cons rule rules)
  obtain c ps where rule: "rule = (c, ps)" by (cases rule)
  have "\<not> list_ex (\<lambda>p. sublist p cl) ps"
    using Cons.prems [of 0] rule by simp
  moreover have "find_category rules cl = None"
  proof (rule Cons.IH)
    show "\<not> list_ex (\<lambda>p. sublist p cl) (snd (rules ! k))" if "k < length rules" for k
      using Cons.prems [of "Suc k"] that by simp
  qed
  ultimately show ?case using rule by simp
qed

lemma find_category_some:
  "find_category rules cl = Some c \<Longrightarrow>
   \<exists>k < length rules. c = fst (rules ! k) \<and> list_ex (\<lambda>p. sublist p cl) (snd (rules ! k)) \<and>
      (\<forall>m < k. \<not> list_ex (\<lambda>p. sublist p cl) (snd (rules ! m)))"
proof (induction rules)
  case Nil
  then show ?case by simp
next
  case (Cons rule rules)
  obtain c' ps where rule: "rule = (c', ps)" by (cases rule)
  show ?case
  proof (cases "list_ex (\<lambda>p. sublist p cl) ps")
    case True
    with Cons.prems rule have "c = c'" by simp
    with True rule show ?thesis
      by (intro exI [of _ 0]) simp
  next
    case False
    with Cons.prems rule have "find_category rules cl = Some c" by simp
    then obtain k where k: "k < length rules" "c = fst (rules ! k)"
      "list_ex (\<lambda>p. sublist p cl) (snd (rules ! k))"
      "\<forall>m < k. \<not> list_ex (\<lambda>p. sublist p cl) (snd (rules ! m))"
      using Cons.IH by blast
    have "\<forall>m < Suc k. \<not> list_ex (\<lambda>p. sublist p cl) (snd ((rule # rules) ! m))"
    proof (intro allI impI)
      fix m assume "m < Suc k"
      then show "\<not> list_ex (\<lambda>p. sublist p cl) (snd ((rule # rules) ! m))"
        using False rule k(4) by (cases m) auto
    qed
    with k show ?thesis
      by (intro exI [of _ "Suc k"]) simp
  qed
qed

section \<open>The keyword lists\<close>

lemma labels: "map fst CATEGORY_PATTERNS =
  [''Authentication System'', ''Admin & Management'', ''Development & UI'',
   ''API Documentation'', ''Security'', ''Configuration'', ''Notes & Memos'']"
  by (simp add: CATEGORY_PATTERNS_def)

lemma labels_distinct: "distinct (map fst CATEGORY_PATTERNS)"
  by (simp add: labels)

lemma to_lower_pattern:
  "\<forall>rule \<in> set CATEGORY_PATTERNS. \<forall>p \<in> set (snd rule). lower p = p"
  by code_simp

lemma tag_has_pattern:
  "\<forall>t \<in> set tag_patterns. \<exists>rule \<in> set CATEGORY_PATTERNS. \<exists>p \<in> set (snd rule). sublist p t"
  by code_simp

lemma find_category_in:
  "rule \<in> set rules \<Longrightarrow> list_ex (\<lambda>p. sublist p cl) (snd rule) \<Longrightarrow>
   \<exists>c \<in> fst ` set rules. find_category rules cl = Some c"
proof (induction rules)
  case Nil
  then show ?case by simp
next
  case (Cons r rules)
  obtain c ps where r: "r = (c, ps)" by (cases r)
  show ?case
  proof (cases "list_ex (\<lambda>p. sublist p cl) ps")
    case True
    with r show ?thesis by simp
  next
    case False
    with Cons.prems r have "rule \<in> set rules" by auto
    with Cons.IH Cons.prems(2) obtain c' where "c' \<in> fst ` set rules" "find_category rules cl = Some c'"
      by blast
    with False r show ?thesis by simp
  qed
qed

lemma sublist_lower: "sublist p content \<Longrightarrow> lower p = p \<Longrightarrow> sublist p (lower content)"
  unfolding lower_def using map_mono_sublist [of p content to_lower] by simp

lemma find_tags_nonempty:
  "find_tags cl \<noteq> [] \<Longrightarrow> \<exists>t \<in> set tag_patterns. sublist t cl"
  by (auto simp: find_tags_def filter_empty_conv)

lemma find_filter_none: "find P xs = None \<Longrightarrow> filter P xs = []"
  by (induction xs) (auto split: if_splits)

lemma find_filter_some: "find P xs = Some x \<Longrightarrow> \<exists>rest. filter P xs = x # rest"
  by (induction xs) (auto split: if_splits)

lemma tag_member:
  "\<forall>t \<in> set tag_patterns. t = ''authentication'' \<or> t = ''configuration'' \<or>
      (\<exists>rule \<in> set CATEGORY_PATTERNS. t \<in> set (snd rule))"
  by (simp add: tag_patterns_def CATEGORY_PATTERNS_def)

lemma field_path_entry: "field ''path'' (snapshot_entry doc) = Some (JString (path doc))"
  by (simp add: field_def snapshot_entry_def)

lemma snapshot_paths_eq: "snapshot_paths (update_metadata_json now documents) = map path documents"
proof -
  have "concat (map (\<lambda>e. case field ''path'' e of Some (JString p) \<Rightarrow> [p] | _ \<Rightarrow> [])
      (map snapshot_entry documents)) = map path documents"
    by (induction documents) (simp_all add: field_path_entry)
  then show ?thesis
    by (simp add: snapshot_paths_def update_metadata_json_def field_def)
qed

lemma mset_sorted_by_date: "mset (sorted_by_date documents) = mset documents"
  by (simp add: sorted_by_date_def)

lemma length_sorted_by_date: "length (sorted_by_date documents) = length documents"
  by (simp add: sorted_by_date_def)

lemma mset_take_subset: "mset (take n xs) \<subseteq># mset xs"
proof -
  have "mset xs = mset (take n xs) + mset (drop n xs)"
    by (metis append_take_drop_id mset_append)
  then show ?thesis by simp
qed

section \<open>The stem of a path and the default title\<close>

lemma split_from_no_sep: "c \<notin> set s \<Longrightarrow> split_from [c] piece s = [rev piece @ s]"
  by (induction s arbitrary: piece) auto

lemma split_from_last:
  "c \<notin> set n \<Longrightarrow> \<exists>pre. split_from [c] piece (xs @ c # n) = pre @ [n]"
proof (induction xs arbitrary: piece)
  case Nil
  then show ?case
    by (simp add: split_from_no_sep)
next
  case (Cons x xs)
  show ?case
  proof (cases "x = c")
    case True
    obtain pre where "split_from [c] [] (xs @ c # n) = pre @ [n]"
      using Cons by blast
    with True have "split_from [c] piece ((x # xs) @ c # n) = (rev piece # pre) @ [n]"
      by simp
    then show ?thesis by blast
  next
    case False
    obtain pre where "split_from [c] (x # piece) (xs @ c # n) = pre @ [n]"
      using Cons by blast
    with False have "split_from [c] piece ((x # xs) @ c # n) = pre @ [n]"
      by simp
    then show ?thesis by blast
  qed
qed

lemma path_name_last:
  assumes "CHR ''/'' \<notin> set n" and "n \<noteq> []" and "n \<noteq> ''.''"
  shows "path_name (dir @ ''/'' @ n) = n"
proof -
  obtain pre where "split ''/'' (dir @ ''/'' @ n) = pre @ [n]"
    using split_from_last [OF assms(1), of "[]" dir] by (auto simp: split_def)
  then have parts: "filter (\<lambda>part. part \<noteq> [] \<and> part \<noteq> ''.'') (split ''/'' (dir @ ''/'' @ n)) =
      filter (\<lambda>part. part \<noteq> [] \<and> part \<noteq> ''.'') pre @ [n]"
    using assms(2,3) by simp
  have "path_name p = last (filter (\<lambda>part. part \<noteq> [] \<and> part \<noteq> ''.'') (split ''/'' p))"
    if "filter (\<lambda>part. part \<noteq> [] \<and> part \<noteq> ''.'') (split ''/'' p) \<noteq> []" for p
    using that by (cases "filter (\<lambda>part. part \<noteq> [] \<and> part \<noteq> ''.'') (split ''/'' p)")
      (simp_all add: path_name_def)
  from this [of "dir @ ''/'' @ n"] parts show ?thesis
    by simp
qed

lemma stem_md:
  assumes "base \<noteq> []" and "CHR ''/'' \<notin> set base"
  shows "stem (dir @ ''/'' @ base @ ''.md'') = base"
proof -
  have "path_name (dir @ ''/'' @ (base @ ''.md'')) = base @ ''.md''"
    using assms by (intro path_name_last) auto
  moreover have "rfind (CHR ''.'') (base @ ''.md'') = Some (length base)"
    by (simp add: rfind_def)
  ultimately show ?thesis
    using assms(1) by (simp add: stem_def)
qed

lemma default_title_defined: "\<exists>t. default_title (pathname_text file_path) = Some t"
  using pathname_text [of file_path] by auto

section \<open>The order of the tags\<close>

lemma finite_collect_tags: "finite (collect_tags documents)"
proof -
  have "finite A \<Longrightarrow> finite (fold (\<lambda>doc all_tags. all_tags \<union> set (tags doc)) documents A)" for A
    by (induction documents arbitrary: A) simp_all
  then show ?thesis
    by (simp add: collect_tags_def)
qed

lemma sort_iteration:
  "set xs = A \<Longrightarrow> distinct xs \<Longrightarrow> sort xs = sorted_list_of_set A"
  using sorted_list_of_set_sort_remdups [of xs] by (simp add: distinct_remdups_id)

lemma index_rest_run_eq:
  assumes "set (iteration (collect_tags documents)) = collect_tags documents"
    and "distinct (iteration (collect_tags documents))"
  shows "index_rest_run iteration documents = index_rest documents"
proof -
  have "sort (iteration (collect_tags documents)) = sorted_list_of_set (collect_tags documents)"
    using assms by (rule sort_iteration)
  then show ?thesis
    by (simp only: index_rest_run_def index_rest_def Let_def)
qed

lemma generate_index_run_eq:
  assumes "set (iteration (collect_tags documents)) = collect_tags documents"
    and "distinct (iteration (collect_tags documents))"
  shows "generate_index_run iteration now documents = generate_index now documents"
  using assms by (simp add: generate_index_run_def generate_index_def index_rest_run_eq)

section \<open>Claims\<close>

text \<open>
  C3. The claim: a line that begins with one to three \<open>#\<close> markers gives a header entry
  whose level is the number of markers and whose text is the line without them, trimmed;
  a line with more markers gives none. The program takes as level the length of the first
  word of the line, \<open>len(line.split()[0])\<close>, which is the number of markers only when
  whitespace or the end of the line follows them. On the line \<open>#ab\<close>, one marker, it
  records level 3 with the text \<open>ab\<close>; on the line \<open>#abcd\<close>, one marker, it records
  nothing.
\<close>

theorem header_level_is_word_length:
  "headers (fst (extract_metadata file_path (Inr ''#ab''))) = [\<lparr>level = 3, text' = ''ab''\<rparr>] \<and>
   headers (fst (extract_metadata file_path (Inr ''#abcd''))) = []"
  by (simp add: extract_metadata_def try_body_def split_def split_ws_def isspace_def ord_def
      lstrip_def strip_def default_metadata_def Let_def split: prod.splits option.splits)

text \<open>
  C6. When opening or reading the file raises, \<open>extract_metadata\<close> returns the dictionary
  with every derived field at its default: the title made from the stem of the file name
  (underscores and hyphens replaced by spaces, then title-cased), the category
  \<open>Uncategorized\<close>, no tags, an empty summary and no headers. It prints one line that
  reports the error, and returns to its caller. The default title of
  \<open>/home/helye/docs/api_rate-limits.v2.md\<close> is \<open>Api Rate Limits.V2\<close>, that of \<open>README.md\<close>
  is \<open>Readme\<close>; the stem of a path \<open>dir/base.md\<close> is \<open>base\<close>.
\<close>

theorem extract_metadata_unreadable:
  "(\<exists>t. default_title (pathname_text file_path) = Some t \<and>
      extract_metadata file_path (Inl (Exception msg)) =
        (\<lparr>title = t, category = ''Uncategorized'', tags = [], summary = [], headers = []\<rparr>,
         [''Error processing '' @ pathname_text file_path @ '': '' @ msg])) \<and>
   default_title ''/home/helye/docs/api_rate-limits.v2.md'' = Some ''Api Rate Limits.V2'' \<and>
   default_title ''README.md'' = Some ''Readme'' \<and>
   default_title ''notes/2024-01-05_todo list.md'' = Some ''2024 01 05 Todo List'' \<and>
   (\<forall>dir base. base \<noteq> [] \<and> CHR ''/'' \<notin> set base \<longrightarrow>
      stem (dir @ ''/'' @ base @ ''.md'') = base)"
proof (intro conjI allI impI)
  obtain t where t: "default_title (pathname_text file_path) = Some t"
    using default_title_defined by blast
  then show "\<exists>t. default_title (pathname_text file_path) = Some t \<and>
      extract_metadata file_path (Inl (Exception msg)) =
        (\<lparr>title = t, category = ''Uncategorized'', tags = [], summary = [], headers = []\<rparr>,
         [''Error processing '' @ pathname_text file_path @ '': '' @ msg])"
    by (simp add: extract_metadata_def try_body_def default_metadata_def)
  show "default_title ''/home/helye/docs/api_rate-limits.v2.md'' = Some ''Api Rate Limits.V2''"
    by code_simp
  show "default_title ''README.md'' = Some ''Readme''"
    by code_simp
  show "default_title ''notes/2024-01-05_todo list.md'' = Some ''2024 01 05 Todo List''"
    by code_simp
next
  fix dir base :: string
  assume "base \<noteq> [] \<and> CHR ''/'' \<notin> set base"
  then have "base \<noteq> []" and "CHR ''/'' \<notin> set base"
    by simp_all
  then show "stem (dir @ ''/'' @ base @ ''.md'') = base"
    by (rule stem_md)
qed

theorem extract_metadata_unreadable_witness:
  "''a_b'' \<noteq> [] \<and> CHR ''/'' \<notin> set ''a_b'' \<and>
   stem (''/docs'' @ ''/'' @ ''a_b'' @ ''.md'') = ''a_b'' \<and>
   extract_metadata (Pathname ''/docs/a_b.md'') (Inl (Exception ''Permission denied'')) =
     (\<lparr>title = ''A B'', category = ''Uncategorized'', tags = [], summary = [], headers = []\<rparr>,
      [''Error processing /docs/a_b.md: Permission denied''])"
proof -
  have h: "''a_b'' \<noteq> [] \<and> CHR ''/'' \<notin> set ''a_b''"
    by simp
  have s: "stem (''/docs'' @ ''/'' @ ''a_b'' @ ''.md'') = ''a_b''"
    using extract_metadata_unreadable [THEN conjunct2, THEN conjunct2, THEN conjunct2,
        THEN conjunct2, rule_format, OF h] .
  have d: "default_title ''/docs/a_b.md'' = Some ''A B''"
    by code_simp
  then have p: "pathname_text (Pathname ''/docs/a_b.md'') = ''/docs/a_b.md''"
    by (simp add: Pathname_inverse)
  obtain t where "default_title (pathname_text (Pathname ''/docs/a_b.md'')) = Some t"
    and "extract_metadata (Pathname ''/docs/a_b.md'') (Inl (Exception ''Permission denied'')) =
        (\<lparr>title = t, category = ''Uncategorized'', tags = [], summary = [], headers = []\<rparr>,
         [''Error processing '' @ pathname_text (Pathname ''/docs/a_b.md'') @ '': '' @
          ''Permission denied''])"
    using extract_metadata_unreadable [of "Pathname ''/docs/a_b.md''" "''Permission denied''",
        THEN conjunct1] by blast
  with d p have "extract_metadata (Pathname ''/docs/a_b.md'') (Inl (Exception ''Permission denied'')) =
     (\<lparr>title = ''A B'', category = ''Uncategorized'', tags = [], summary = [], headers = []\<rparr>,
      [''Error processing /docs/a_b.md: Permission denied''])"
    by simp
  with h s show ?thesis by blast
qed

text \<open>
  C7. On the empty list of documents \<open>generate_index\<close> returns a text, not an exception
  of \<open>docs_by_date[0]\<close> or of \<open>max\<close>: the index below, with a total of 0 documents,
  0 categories, and \<open>N/A\<close> for the last update and for the largest document.
\<close>

theorem generate_index_empty:
  "generate_index now [] =
     Inr (''# '' @ BOOKS @ '' Markdown Brain Index'' @ [nl, nl] @
          ''> Last Updated: '' @ strftime_minute now @ [nl] @
          ''> Total Documents: 0'' @ [nl, nl] @
          ''## '' @ TARGET @ '' Quick Access'' @ [nl] @
          [nl] @ ''## '' @ FOLDER @ '' By Category'' @ [nl, nl] @
          ''## '' @ CHART @ '' Statistics'' @ [nl, nl] @
          ''- **Total Documents**: 0'' @ [nl] @
          ''- **Categories**: 0'' @ [nl] @
          ''- **Last Update**: N/A'' @ [nl] @
          ''- **Largest Document**: N/A'' @ [nl, nl] @
          ''## '' @ LABEL @ '' All Tags'' @ [nl] @
          [nl] @ ''---'' @ [nl] @ ''*Auto-generated by update-index.py*'' @ [nl])"
proof -
  have "index_rest [] =
     Inr ([nl] @
          ''> Total Documents: 0'' @ [nl, nl] @
          ''## '' @ TARGET @ '' Quick Access'' @ [nl] @
          [nl] @ ''## '' @ FOLDER @ '' By Category'' @ [nl, nl] @
          ''## '' @ CHART @ '' Statistics'' @ [nl, nl] @
          ''- **Total Documents**: 0'' @ [nl] @
          ''- **Categories**: 0'' @ [nl] @
          ''- **Last Update**: N/A'' @ [nl] @
          ''- **Largest Document**: N/A'' @ [nl, nl] @
          ''## '' @ LABEL @ '' All Tags'' @ [nl] @
          [nl] @ ''---'' @ [nl] @ ''*Auto-generated by update-index.py*'' @ [nl])"
    unfolding index_rest_def sorted_by_date_def group_by_category_def quick_access_def
      last_update_def largest_document_def collect_tags_def
    by (simp add: str_nat_0 del: str_nat.simps)
  then show ?thesis
    by (simp add: generate_index_def index_head_def)
qed

text \<open>
  C8. Two runs of \<open>generate_index\<close> on the same list of documents give the same text but
  for the time in the header line. The runs may differ in their clocks and in the order in
  which each iterates the set of tags; each iteration yields every tag of the set once.
  Lists and dictionaries keep their order from run to run, and the sorts are stable. There
  is one text \<open>post\<close> such that each run returns the fixed head, its own time, and
  \<open>post\<close>: the tags are sorted before they are joined, so the order of the iteration
  does not reach the text.
\<close>

theorem generate_index_runs_agree:
  assumes "set (iteration1 (collect_tags documents)) = collect_tags documents"
    and "distinct (iteration1 (collect_tags documents))"
    and "set (iteration2 (collect_tags documents)) = collect_tags documents"
    and "distinct (iteration2 (collect_tags documents))"
  shows "\<exists>post.
    generate_index_run iteration1 now1 documents = Inr (index_head @ strftime_minute now1 @ post) \<and>
    generate_index_run iteration2 now2 documents = Inr (index_head @ strftime_minute now2 @ post)"
proof -
  obtain post where post: "index_rest documents = Inr post"
    using index_rest_total by blast
  have "index_rest_run iteration1 documents = Inr post"
    using assms(1,2) post by (simp add: index_rest_run_eq)
  moreover have "index_rest_run iteration2 documents = Inr post"
    using assms(3,4) post by (simp add: index_rest_run_eq)
  ultimately show ?thesis
    by (simp add: generate_index_run_def)
qed

theorem generate_index_runs_agree_witness:
  "set (sorted_list_of_set (collect_tags
     [\<lparr>title = ''A'', category = ''Security'', tags = [''#ui'', ''#api''], summary = ''One.'',
       headers = [], path = ''a.md'', full_path = ''/docs/a.md'', name = ''a.md'',
       modified = \<lparr>year = 2024, month = 1, day = 5, hour = 3, minute = 7, second = 0,
         microsecond = 0\<rparr>, size_bytes = 10\<rparr>,
      \<lparr>title = ''B'', category = ''Uncategorized'', tags = [''#api'', ''#admin''], summary = [],
       headers = [], path = ''sub/b.md'', full_path = ''/docs/sub/b.md'', name = ''b.md'',
       modified = \<lparr>year = 2024, month = 2, day = 9, hour = 0, minute = 0, second = 0,
         microsecond = 0\<rparr>, size_bytes = 20\<rparr>])) = collect_tags
     [\<lparr>title = ''A'', category = ''Security'', tags = [''#ui'', ''#api''], summary = ''One.'',
       headers = [], path = ''a.md'', full_path = ''/docs/a.md'', name = ''a.md'',
       modified = \<lparr>year = 2024, month = 1, day = 5, hour = 3, minute = 7, second = 0,
         microsecond = 0\<rparr>, size_bytes = 10\<rparr>,
      \<lparr>title = ''B'', category = ''Uncategorized'', tags = [''#api'', ''#admin''], summary = [],
       headers = [], path = ''sub/b.md'', full_path = ''/docs/sub/b.md'', name = ''b.md'',
       modified = \<lparr>year = 2024, month = 2, day = 9, hour = 0, minute = 0, second = 0,
         microsecond = 0\<rparr>, size_bytes = 20\<rparr>] \<and>
   distinct (sorted_list_of_set (collect_tags
     [\<lparr>title = ''A'', category = ''Security'', tags = [''#ui'', ''#api''], summary = ''One.'',
       headers = [], path = ''a.md'', full_path = ''/docs/a.md'', name = ''a.md'',
       modified = \<lparr>year = 2024, month = 1, day = 5, hour = 3, minute = 7, second = 0,
         microsecond = 0\<rparr>, size_bytes = 10\<rparr>,
      \<lparr>title = ''B'', category = ''Uncategorized'', tags = [''#api'', ''#admin''], summary = [],
       headers = [], path = ''sub/b.md'', full_path = ''/docs/sub/b.md'', name = ''b.md'',
       modified = \<lparr>year = 2024, month = 2, day = 9, hour = 0, minute = 0, second = 0,
         microsecond = 0\<rparr>, size_bytes = 20\<rparr>])) \<and>
   set (rev (sorted_list_of_set (collect_tags
     [\<lparr>title = ''A'', category = ''Security'', tags = [''#ui'', ''#api''], summary = ''One.'',
       headers = [], path = ''a.md'', full_path = ''/docs/a.md'', name = ''a.md'',
       modified = \<lparr>year = 2024, month = 1, day = 5, hour = 3, minute = 7, second = 0,
         microsecond = 0\<rparr>, size_bytes = 10\<rparr>,
      \<lparr>title = ''B'', category = ''Uncategorized'', tags = [''#api'', ''#admin''], summary = [],
       headers = [], path = ''sub/b.md'', full_path = ''/docs/sub/b.md'', name = ''b.md'',
       modified = \<lparr>year = 2024, month = 2, day = 9, hour = 0, minute = 0, second = 0,
         microsecond = 0\<rparr>, size_bytes = 20\<rparr>]))) = collect_tags
     [\<lparr>title = ''A'', category = ''Security'', tags = [''#ui'', ''#api''], summary = ''One.'',
       headers = [], path = ''a.md'', full_path = ''/docs/a.md'', name = ''a.md'',
       modified = \<lparr>year = 2024, month = 1, day = 5, hour = 3, minute = 7, second = 0,
         microsecond = 0\<rparr>, size_bytes = 10\<rparr>,
      \<lparr>title = ''B'', category = ''Uncategorized'', tags = [''#api'', ''#admin''], summary = [],
       headers = [], path = ''sub/b.md'', full_path = ''/docs/sub/b.md'', name = ''b.md'',
       modified = \<lparr>year = 2024, month = 2, day = 9, hour = 0, minute = 0, second = 0,
         microsecond = 0\<rparr>, size_bytes = 20\<rparr>] \<and>
   distinct (rev (sorted_list_of_set (collect_tags
     [\<lparr>title = ''A'', category = ''Security'', tags = [''#ui'', ''#api''], summary = ''One.'',
       headers = [], path = ''a.md'', full_path = ''/docs/a.md'', name = ''a.md'',
       modified = \<lparr>year = 2024, month = 1, day = 5, hour = 3, minute = 7, second = 0,
         microsecond = 0\<rparr>, size_bytes = 10\<rparr>,
      \<lparr>title = ''B'', category = ''Uncategorized'', tags = [''#api'', ''#admin''], summary = [],
       headers = [], path = ''sub/b.md'', full_path = ''/docs/sub/b.md'', name = ''b.md'',
       modified = \<lparr>year = 2024, month = 2, day = 9, hour = 0, minute = 0, second = 0,
         microsecond = 0\<rparr>, size_bytes = 20\<rparr>]))) \<and>
   sorted_list_of_set (collect_tags
     [\<lparr>title = ''A'', category = ''Security'', tags = [''#ui'', ''#api''], summary = ''One.'',
       headers = [], path = ''a.md'', full_path = ''/docs/a.md'', name = ''a.md'',
       modified = \<lparr>year = 2024, month = 1, day = 5, hour = 3, minute = 7, second = 0,
         microsecond = 0\<rparr>, size_bytes = 10\<rparr>,
      \<lparr>title = ''B'', category = ''Uncategorized'', tags = [''#api'', ''#admin''], summary = [],
       headers = [], path = ''sub/b.md'', full_path = ''/docs/sub/b.md'', name = ''b.md'',
       modified = \<lparr>year = 2024, month = 2, day = 9, hour = 0, minute = 0, second = 0,
         microsecond = 0\<rparr>, size_bytes = 20\<rparr>]) = [''#admin'', ''#api'', ''#ui''] \<and>
   (\<exists>post.
     generate_index_run sorted_list_of_set
       \<lparr>year = 2024, month = 3, day = 1, hour = 12, minute = 0, second = 0, microsecond = 0\<rparr>
       [\<lparr>title = ''A'', category = ''Security'', tags = [''#ui'', ''#api''], summary = ''One.'',
       headers = [], path = ''a.md'', full_path = ''/docs/a.md'', name = ''a.md'',
       modified = \<lparr>year = 2024, month = 1, day = 5, hour = 3, minute = 7, second = 0,
         microsecond = 0\<rparr>, size_bytes = 10\<rparr>,
      \<lparr>title = ''B'', category = ''Uncategorized'', tags = [''#api'', ''#admin''], summary = [],
       headers = [], path = ''sub/b.md'', full_path = ''/docs/sub/b.md'', name = ''b.md'',
       modified = \<lparr>year = 2024, month = 2, day = 9, hour = 0, minute = 0, second = 0,
         microsecond = 0\<rparr>, size_bytes = 20\<rparr>] = Inr (index_head @ strftime_minute
       \<lparr>year = 2024, month = 3, day = 1, hour = 12, minute = 0, second = 0, microsecond = 0\<rparr> @ post) \<and>
     generate_index_run (\<lambda>all_tags. rev (sorted_list_of_set all_tags))
       \<lparr>year = 2024, month = 3, day = 2, hour = 9, minute = 30, second = 0, microsecond = 0\<rparr>
       [\<lparr>title = ''A'', category = ''Security'', tags = [''#ui'', ''#api''], summary = ''One.'',
       headers = [], path = ''a.md'', full_path = ''/docs/a.md'', name = ''a.md'',
       modified = \<lparr>year = 2024, month = 1, day = 5, hour = 3, minute = 7, second = 0,
         microsecond = 0\<rparr>, size_bytes = 10\<rparr>,
      \<lparr>title = ''B'', category = ''Uncategorized'', tags = [''#api'', ''#admin''], summary = [],
       headers = [], path = ''sub/b.md'', full_path = ''/docs/sub/b.md'', name = ''b.md'',
       modified = \<lparr>year = 2024, month = 2, day = 9, hour = 0, minute = 0, second = 0,
         microsecond = 0\<rparr>, size_bytes = 20\<rparr>] = Inr (index_head @ strftime_minute
       \<lparr>year = 2024, month = 3, day = 2, hour = 9, minute = 30, second = 0, microsecond = 0\<rparr> @ post))"
proof -
  let ?docs = "[\<lparr>title = ''A'', category = ''Security'', tags = [''#ui'', ''#api''], summary = ''One.'',
       headers = [], path = ''a.md'', full_path = ''/docs/a.md'', name = ''a.md'',
       modified = \<lparr>year = 2024, month = 1, day = 5, hour = 3, minute = 7, second = 0,
         microsecond = 0\<rparr>, size_bytes = 10\<rparr>,
      \<lparr>title = ''B'', category = ''Uncategorized'', tags = [''#api'', ''#admin''], summary = [],
       headers = [], path = ''sub/b.md'', full_path = ''/docs/sub/b.md'', name = ''b.md'',
       modified = \<lparr>year = 2024, month = 2, day = 9, hour = 0, minute = 0, second = 0,
         microsecond = 0\<rparr>, size_bytes = 20\<rparr>]"
  have f: "finite (collect_tags ?docs)"
    by (rule finite_collect_tags)
  have a: "set (sorted_list_of_set (collect_tags ?docs)) = collect_tags ?docs"
    and b: "distinct (sorted_list_of_set (collect_tags ?docs))"
    and c: "set (rev (sorted_list_of_set (collect_tags ?docs))) = collect_tags ?docs"
    and d: "distinct (rev (sorted_list_of_set (collect_tags ?docs)))"
    using f by simp_all
  have e: "sorted_list_of_set (collect_tags ?docs) = [''#admin'', ''#api'', ''#ui'']"
    by code_simp
  have "\<exists>post.
     generate_index_run sorted_list_of_set
       \<lparr>year = 2024, month = 3, day = 1, hour = 12, minute = 0, second = 0, microsecond = 0\<rparr>
       ?docs = Inr (index_head @ strftime_minute
       \<lparr>year = 2024, month = 3, day = 1, hour = 12, minute = 0, second = 0, microsecond = 0\<rparr> @ post) \<and>
     generate_index_run (\<lambda>all_tags. rev (sorted_list_of_set all_tags))
       \<lparr>year = 2024, month = 3, day = 2, hour = 9, minute = 30, second = 0, microsecond = 0\<rparr>
       ?docs = Inr (index_head @ strftime_minute
       \<lparr>year = 2024, month = 3, day = 2, hour = 9, minute = 30, second = 0, microsecond = 0\<rparr> @ post)"
    using generate_index_runs_agree [of sorted_list_of_set ?docs
        "\<lambda>all_tags. rev (sorted_list_of_set all_tags)", OF a b c d] .
  with a b c d e show ?thesis by blast
qed

text \<open>
  C1. The category of a readable document is the label of the first category, in the
  declared order of \<open>CATEGORY_PATTERNS\<close>, that has a keyword in the lower-cased content:
  the label of category \<open>i\<close> when it matches and none before it does; when two categories
  \<open>i < j\<close> match, never the label of the later one, but a label among the first \<open>i + 1\<close>;
  and \<open>Uncategorized\<close> when no category matches. A keyword that occurs in the content as
  it is written occurs in the lower-cased content.
\<close>

theorem category_first_match:
  "map fst CATEGORY_PATTERNS =
     [''Authentication System'', ''Admin & Management'', ''Development & UI'',
      ''API Documentation'', ''Security'', ''Configuration'', ''Notes & Memos''] \<and>
   (\<forall>i < length CATEGORY_PATTERNS.
      list_ex (\<lambda>p. sublist p (lower content)) (snd (CATEGORY_PATTERNS ! i)) \<and>
      (\<forall>k < i. \<not> list_ex (\<lambda>p. sublist p (lower content)) (snd (CATEGORY_PATTERNS ! k))) \<longrightarrow>
      category (fst (extract_metadata file_path (Inr content))) = fst (CATEGORY_PATTERNS ! i)) \<and>
   (\<forall>i j. i < j \<and> j < length CATEGORY_PATTERNS \<and>
      list_ex (\<lambda>p. sublist p (lower content)) (snd (CATEGORY_PATTERNS ! i)) \<and>
      list_ex (\<lambda>p. sublist p (lower content)) (snd (CATEGORY_PATTERNS ! j)) \<longrightarrow>
      category (fst (extract_metadata file_path (Inr content))) \<noteq> fst (CATEGORY_PATTERNS ! j) \<and>
      category (fst (extract_metadata file_path (Inr content)))
        \<in> set (take (Suc i) (map fst CATEGORY_PATTERNS))) \<and>
   ((\<forall>i < length CATEGORY_PATTERNS.
       \<not> list_ex (\<lambda>p. sublist p (lower content)) (snd (CATEGORY_PATTERNS ! i))) \<longrightarrow>
      category (fst (extract_metadata file_path (Inr content))) = ''Uncategorized'') \<and>
   (\<forall>i < length CATEGORY_PATTERNS. \<forall>p \<in> set (snd (CATEGORY_PATTERNS ! i)).
      sublist p content \<longrightarrow> sublist p (lower content))"
proof (intro conjI allI impI ballI)
  show "map fst CATEGORY_PATTERNS =
     [''Authentication System'', ''Admin & Management'', ''Development & UI'',
      ''API Documentation'', ''Security'', ''Configuration'', ''Notes & Memos'']"
    by (rule labels)
next
  fix i
  assume "i < length CATEGORY_PATTERNS"
    and "list_ex (\<lambda>p. sublist p (lower content)) (snd (CATEGORY_PATTERNS ! i)) \<and>
      (\<forall>k < i. \<not> list_ex (\<lambda>p. sublist p (lower content)) (snd (CATEGORY_PATTERNS ! k)))"
  then have "find_category CATEGORY_PATTERNS (lower content) = Some (fst (CATEGORY_PATTERNS ! i))"
    by (intro find_category_first) auto
  then show "category (fst (extract_metadata file_path (Inr content))) = fst (CATEGORY_PATTERNS ! i)"
    by (simp add: category_readable)
next
  fix i j
  assume a: "i < j \<and> j < length CATEGORY_PATTERNS \<and>
      list_ex (\<lambda>p. sublist p (lower content)) (snd (CATEGORY_PATTERNS ! i)) \<and>
      list_ex (\<lambda>p. sublist p (lower content)) (snd (CATEGORY_PATTERNS ! j))"
  then have "CATEGORY_PATTERNS ! i \<in> set CATEGORY_PATTERNS" by simp
  with a obtain c where c: "find_category CATEGORY_PATTERNS (lower content) = Some c"
    using find_category_in by blast
  then obtain k where k: "k < length CATEGORY_PATTERNS" "c = fst (CATEGORY_PATTERNS ! k)"
    "\<forall>m < k. \<not> list_ex (\<lambda>p. sublist p (lower content)) (snd (CATEGORY_PATTERNS ! m))"
    using find_category_some by blast
  from k(3) a have ki: "k \<le> i" by (meson not_le)
  with a have "k \<noteq> j" by simp
  with k a have "map fst CATEGORY_PATTERNS ! k \<noteq> map fst CATEGORY_PATTERNS ! j"
    using labels_distinct by (simp add: nth_eq_iff_index_eq del: nth_map)
  with k a have neq: "c \<noteq> fst (CATEGORY_PATTERNS ! j)" by simp
  have "take (Suc i) (map fst CATEGORY_PATTERNS) ! k = c"
    using k ki a by simp
  moreover have "k < length (take (Suc i) (map fst CATEGORY_PATTERNS))"
    using k ki a by simp
  ultimately have "c \<in> set (take (Suc i) (map fst CATEGORY_PATTERNS))"
    using nth_mem by blast
  with neq c show "category (fst (extract_metadata file_path (Inr content))) \<noteq> fst (CATEGORY_PATTERNS ! j)"
    and "category (fst (extract_metadata file_path (Inr content)))
        \<in> set (take (Suc i) (map fst CATEGORY_PATTERNS))"
    by (simp_all add: category_readable)
next
  assume "\<forall>i < length CATEGORY_PATTERNS.
       \<not> list_ex (\<lambda>p. sublist p (lower content)) (snd (CATEGORY_PATTERNS ! i))"
  then have "find_category CATEGORY_PATTERNS (lower content) = None"
    by (intro find_category_none) auto
  then show "category (fst (extract_metadata file_path (Inr content))) = ''Uncategorized''"
    by (simp add: category_readable)
next
  fix i p
  assume "i < length CATEGORY_PATTERNS" and "p \<in> set (snd (CATEGORY_PATTERNS ! i))"
    and "sublist p content"
  moreover from this have "lower p = p"
    using to_lower_pattern nth_mem by blast
  ultimately show "sublist p (lower content)"
    by (simp add: sublist_lower)
qed

theorem category_first_match_witness:
  "list_ex (\<lambda>p. sublist p (lower ''Please LOGIN to the dashboard'')) (snd (CATEGORY_PATTERNS ! 0)) \<and>
   list_ex (\<lambda>p. sublist p (lower ''Please LOGIN to the dashboard'')) (snd (CATEGORY_PATTERNS ! 1)) \<and>
   category (fst (extract_metadata (Pathname ''notes.md'') (Inr ''Please LOGIN to the dashboard'')))
     = ''Authentication System'' \<and>
   category (fst (extract_metadata (Pathname ''notes.md'') (Inr ''Please LOGIN to the dashboard'')))
     \<noteq> ''Admin & Management'' \<and>
   sublist ''dashboard'' ''Please LOGIN to the dashboard'' \<and>
   sublist ''dashboard'' (lower ''Please LOGIN to the dashboard'') \<and>
   category (fst (extract_metadata (Pathname ''notes.md'') (Inr ''Hello''))) = ''Uncategorized''"
proof -
  let ?c = "''Please LOGIN to the dashboard''"
  note fm = category_first_match [of ?c "Pathname ''notes.md''"]
  have len: "length CATEGORY_PATTERNS = 7"
    by (simp add: CATEGORY_PATTERNS_def)
  have m0: "list_ex (\<lambda>p. sublist p (lower ?c)) (snd (CATEGORY_PATTERNS ! 0))"
    by code_simp
  have m1: "list_ex (\<lambda>p. sublist p (lower ?c)) (snd (CATEGORY_PATTERNS ! 1))"
    by code_simp
  have l0: "fst (CATEGORY_PATTERNS ! 0) = ''Authentication System''"
    and l1: "fst (CATEGORY_PATTERNS ! 1) = ''Admin & Management''"
    by (simp_all add: CATEGORY_PATTERNS_def)
  have first: "category (fst (extract_metadata (Pathname ''notes.md'') (Inr ?c))) = ''Authentication System''"
    using fm [THEN conjunct2, THEN conjunct1, rule_format, of 0] m0 len l0 by simp
  have "(0::nat) < 1 \<and> 1 < length CATEGORY_PATTERNS \<and>
      list_ex (\<lambda>p. sublist p (lower ?c)) (snd (CATEGORY_PATTERNS ! 0)) \<and>
      list_ex (\<lambda>p. sublist p (lower ?c)) (snd (CATEGORY_PATTERNS ! 1))"
    using m0 m1 len by simp
  then have second: "category (fst (extract_metadata (Pathname ''notes.md'') (Inr ?c))) \<noteq> fst (CATEGORY_PATTERNS ! 1)"
    using fm [THEN conjunct2, THEN conjunct2, THEN conjunct1, rule_format, of 0 1] by simp
  have d: "sublist ''dashboard'' ?c"
    by code_simp
  have "''dashboard'' \<in> set (snd (CATEGORY_PATTERNS ! 1))"
    by (simp add: CATEGORY_PATTERNS_def)
  with d len have d': "sublist ''dashboard'' (lower ?c)"
    using fm [THEN conjunct2, THEN conjunct2, THEN conjunct2, THEN conjunct2, rule_format,
        of 1 "''dashboard''"] by simp
  have none: "\<forall>i < length CATEGORY_PATTERNS.
       \<not> list_ex (\<lambda>p. sublist p (lower ''Hello'')) (snd (CATEGORY_PATTERNS ! i))"
    unfolding len by code_simp
  have third: "category (fst (extract_metadata (Pathname ''notes.md'') (Inr ''Hello''))) = ''Uncategorized''"
    using category_first_match [of "''Hello''" "Pathname ''notes.md''", THEN conjunct2, THEN conjunct2,
        THEN conjunct2, THEN conjunct1] none by simp
  from m0 m1 first second l1 d d' third show ?thesis by simp
qed

text \<open>
  C2. The claim: the summary is taken from the first qualifying paragraph as
  \<open>content.split('\n\n')\<close> gives it, its first 200 characters followed by \<open>...\<close> when it
  has more than 200 characters, the paragraph exactly when it has at most 200. The program
  trims every paragraph (\<open>p.strip()\<close>) before it tests, measures and takes it. What holds
  is the claim of the trimmed paragraph: the first qualifying paragraph is the first
  piece that is not empty after trimming and, trimmed, does not start with \<open>#\<close>; when the
  trimmed paragraph has more than 200 characters the summary is its first 200 characters
  followed by \<open>...\<close>; when it has at most 200 the summary is the trimmed paragraph; when no
  paragraph qualifies the summary is empty.
\<close>

theorem summary_first_paragraph:
  "(\<forall>p. find (\<lambda>p. strip p \<noteq> [] \<and> \<not> prefix ''#'' (strip p)) (split [nl, nl] content) = Some p \<and>
        200 < length (strip p) \<longrightarrow>
      summary (fst (extract_metadata file_path (Inr content))) = take 200 (strip p) @ ''...'') \<and>
   (\<forall>p. find (\<lambda>p. strip p \<noteq> [] \<and> \<not> prefix ''#'' (strip p)) (split [nl, nl] content) = Some p \<and>
        length (strip p) \<le> 200 \<longrightarrow>
      summary (fst (extract_metadata file_path (Inr content))) = strip p) \<and>
   (find (\<lambda>p. strip p \<noteq> [] \<and> \<not> prefix ''#'' (strip p)) (split [nl, nl] content) = None \<longrightarrow>
      summary (fst (extract_metadata file_path (Inr content))) = [])"
proof (intro conjI allI impI)
  fix p
  assume "find (\<lambda>p. strip p \<noteq> [] \<and> \<not> prefix ''#'' (strip p)) (split [nl, nl] content) = Some p \<and>
        200 < length (strip p)"
  then have f: "find (\<lambda>p. strip p \<noteq> [] \<and> \<not> prefix ''#'' (strip p)) (split [nl, nl] content) = Some p"
    and l: "200 < length (strip p)"
    by simp_all
  from find_filter_some [OF f] obtain rest where
    "filter (\<lambda>p. strip p \<noteq> [] \<and> \<not> prefix ''#'' (strip p)) (split [nl, nl] content) = p # rest" ..
  with l show "summary (fst (extract_metadata file_path (Inr content))) = take 200 (strip p) @ ''...''"
    by (simp add: summary_readable first_paragraph_summary_def paragraphs_def)
next
  fix p
  assume "find (\<lambda>p. strip p \<noteq> [] \<and> \<not> prefix ''#'' (strip p)) (split [nl, nl] content) = Some p \<and>
        length (strip p) \<le> 200"
  then have f: "find (\<lambda>p. strip p \<noteq> [] \<and> \<not> prefix ''#'' (strip p)) (split [nl, nl] content) = Some p"
    and l: "length (strip p) \<le> 200"
    by simp_all
  from find_filter_some [OF f] obtain rest where
    "filter (\<lambda>p. strip p \<noteq> [] \<and> \<not> prefix ''#'' (strip p)) (split [nl, nl] content) = p # rest" ..
  with l show "summary (fst (extract_metadata file_path (Inr content))) = strip p"
    by (simp add: summary_readable first_paragraph_summary_def paragraphs_def)
next
  assume "find (\<lambda>p. strip p \<noteq> [] \<and> \<not> prefix ''#'' (strip p)) (split [nl, nl] content) = None"
  then have "filter (\<lambda>p. strip p \<noteq> [] \<and> \<not> prefix ''#'' (strip p)) (split [nl, nl] content) = []"
    by (rule find_filter_none)
  then show "summary (fst (extract_metadata file_path (Inr content))) = []"
    by (simp add: summary_readable first_paragraph_summary_def paragraphs_def)
qed

theorem summary_first_paragraph_witness:
  "find (\<lambda>p. strip p \<noteq> [] \<and> \<not> prefix ''#'' (strip p))
     (split [nl, nl] (''# Title'' @ [nl, nl] @ replicate 250 (CHR ''a'') @ [nl, nl] @ ''end''))
     = Some (replicate 250 (CHR ''a'')) \<and>
   summary (fst (extract_metadata (Pathname ''notes.md'')
     (Inr (''# Title'' @ [nl, nl] @ replicate 250 (CHR ''a'') @ [nl, nl] @ ''end''))))
     = replicate 200 (CHR ''a'') @ ''...'' \<and>
   find (\<lambda>p. strip p \<noteq> [] \<and> \<not> prefix ''#'' (strip p))
     (split [nl, nl] (''# Title'' @ [nl, nl] @ ''  Short text. '' @ [nl, nl] @ ''end''))
     = Some (''  Short text. '') \<and>
   summary (fst (extract_metadata (Pathname ''notes.md'')
     (Inr (''# Title'' @ [nl, nl] @ ''  Short text. '' @ [nl, nl] @ ''end'')))) = ''Short text.'' \<and>
   find (\<lambda>p. strip p \<noteq> [] \<and> \<not> prefix ''#'' (strip p)) (split [nl, nl] ''# Title'') = None \<and>
   summary (fst (extract_metadata (Pathname ''notes.md'') (Inr ''# Title''))) = []"
proof -
  let ?long = "''# Title'' @ [nl, nl] @ replicate 250 (CHR ''a'') @ [nl, nl] @ ''end''"
  let ?short = "''# Title'' @ [nl, nl] @ ''  Short text. '' @ [nl, nl] @ ''end''"
  let ?P = "\<lambda>p. strip p \<noteq> [] \<and> \<not> prefix ''#'' (strip p)"
  have f1: "find ?P (split [nl, nl] ?long) = Some (replicate 250 (CHR ''a''))"
    by code_simp
  have l1: "200 < length (strip (replicate 250 (CHR ''a'')))"
    by code_simp
  have t1: "take 200 (strip (replicate 250 (CHR ''a''))) = replicate 200 (CHR ''a'')"
    by code_simp
  have s1: "summary (fst (extract_metadata (Pathname ''notes.md'') (Inr ?long))) = replicate 200 (CHR ''a'') @ ''...''"
    using summary_first_paragraph [of ?long "Pathname ''notes.md''", THEN conjunct1, rule_format,
        of "replicate 250 (CHR ''a'')"] f1 l1 t1 by simp
  have f2: "find ?P (split [nl, nl] ?short) = Some (''  Short text. '')"
    by code_simp
  have l2: "length (strip ''  Short text. '') \<le> 200"
    by code_simp
  have t2: "strip ''  Short text. '' = ''Short text.''"
    by code_simp
  have s2: "summary (fst (extract_metadata (Pathname ''notes.md'') (Inr ?short))) = ''Short text.''"
    using summary_first_paragraph [of ?short "Pathname ''notes.md''", THEN conjunct2, THEN conjunct1,
        rule_format, of "''  Short text. ''"] f2 l2 t2 by simp
  have f3: "find ?P (split [nl, nl] ''# Title'') = None"
    by code_simp
  have s3: "summary (fst (extract_metadata (Pathname ''notes.md'') (Inr ''# Title''))) = []"
    using summary_first_paragraph [of "''# Title''" "Pathname ''notes.md''", THEN conjunct2,
        THEN conjunct2, rule_format] f3 by simp
  from f1 s1 f2 s2 f3 s3 show ?thesis by blast
qed


text \<open>
  The paragraph made of a space and 200 letters has 201 characters; its summary is the
  200 letters, with no \<open>...\<close>. The paragraph \<open>Hello\<close> with a newline after it has the
  summary \<open>Hello\<close>, not the paragraph as it was split.
\<close>

theorem summary_untrimmed_counterexample:
  "split [nl, nl] (CHR '' '' # replicate 200 (CHR ''a'')) = [CHR '' '' # replicate 200 (CHR ''a'')] \<and>
   200 < length (CHR '' '' # replicate 200 (CHR ''a'')) \<and>
   summary (fst (extract_metadata (Pathname ''notes.md'')
     (Inr (CHR '' '' # replicate 200 (CHR ''a''))))) = replicate 200 (CHR ''a'') \<and>
   summary (fst (extract_metadata (Pathname ''notes.md'')
     (Inr (CHR '' '' # replicate 200 (CHR ''a''))))) \<noteq>
     take 200 (CHR '' '' # replicate 200 (CHR ''a'')) @ ''...'' \<and>
   split [nl, nl] (''Hello'' @ [nl]) = [''Hello'' @ [nl]] \<and>
   length (''Hello'' @ [nl]) \<le> 200 \<and>
   summary (fst (extract_metadata (Pathname ''notes.md'') (Inr (''Hello'' @ [nl])))) = ''Hello'' \<and>
   summary (fst (extract_metadata (Pathname ''notes.md'') (Inr (''Hello'' @ [nl])))) \<noteq>
     ''Hello'' @ [nl]"
proof -
  have a: "split [nl, nl] (CHR '' '' # replicate 200 (CHR ''a'')) = [CHR '' '' # replicate 200 (CHR ''a'')]"
    by code_simp
  have b: "first_paragraph_summary (CHR '' '' # replicate 200 (CHR ''a'')) = Some (replicate 200 (CHR ''a''))"
    by code_simp
  have c: "replicate 200 (CHR ''a'') \<noteq> take 200 (CHR '' '' # replicate 200 (CHR ''a'')) @ ''...''"
    by code_simp
  have d: "split [nl, nl] (''Hello'' @ [nl]) = [''Hello'' @ [nl]]"
    by code_simp
  have e: "first_paragraph_summary (''Hello'' @ [nl]) = Some ''Hello''"
    by code_simp
  from a b c d e show ?thesis
    by (simp add: summary_readable)
qed

text \<open>
  C9. A readable document with a tag has a category: when the tag sequence of the record
  is not empty, its category is not \<open>Uncategorized\<close>. Every tag keyword contains a
  category keyword, so a content that yields a tag matches a category.
\<close>

theorem tags_imply_category:
  "tags (fst (extract_metadata file_path (Inr content))) \<noteq> [] \<Longrightarrow>
   category (fst (extract_metadata file_path (Inr content))) \<noteq> ''Uncategorized''"
proof -
  assume "tags (fst (extract_metadata file_path (Inr content))) \<noteq> []"
  then obtain t where t: "t \<in> set tag_patterns" "sublist t (lower content)"
    using find_tags_nonempty by (auto simp: tags_readable)
  then obtain rule p where rule: "rule \<in> set CATEGORY_PATTERNS" "p \<in> set (snd rule)" "sublist p t"
    using tag_has_pattern by blast
  from rule(3) t(2) have "sublist p (lower content)"
    by (rule sublist_order.order.trans)
  with rule(2) have "list_ex (\<lambda>p. sublist p (lower content)) (snd rule)"
    by (auto simp: list_ex_iff)
  with rule(1) obtain c where c: "c \<in> fst ` set CATEGORY_PATTERNS"
    "find_category CATEGORY_PATTERNS (lower content) = Some c"
    using find_category_in by blast
  from c(1) have "c \<in> set (map fst CATEGORY_PATTERNS)" by simp
  then have "c \<noteq> ''Uncategorized''"
    unfolding labels by auto
  with c(2) show ?thesis
    by (simp add: category_readable)
qed

theorem tags_imply_category_witness:
  "tags (fst (extract_metadata (Pathname ''notes.md'') (Inr ''The API''))) = [''#api''] \<and>
   category (fst (extract_metadata (Pathname ''notes.md'') (Inr ''The API''))) \<noteq> ''Uncategorized''"
proof -
  have "find_tags (lower ''The API'') = [''#api'']"
    by code_simp
  then have t: "tags (fst (extract_metadata (Pathname ''notes.md'') (Inr ''The API''))) = [''#api'']"
    by (simp add: tags_readable)
  then have "tags (fst (extract_metadata (Pathname ''notes.md'') (Inr ''The API''))) \<noteq> []"
    by simp
  then have "category (fst (extract_metadata (Pathname ''notes.md'') (Inr ''The API''))) \<noteq> ''Uncategorized''"
    by (rule tags_imply_category)
  with t show ?thesis by simp
qed

text \<open>
  C4. The claim: every keyword of the tag list is a member of some category's keyword set.
  It fails for \<open>authentication\<close> and \<open>configuration\<close>: the categories have the keywords
  \<open>auth\<close> and \<open>config\<close>, not these. What holds: every other tag keyword is a category
  keyword, every tag keyword contains a category keyword, and the categories have
  keywords, such as \<open>login\<close>, that are no tag keywords.
\<close>

theorem tag_list_keywords:
  "(\<forall>t \<in> set tag_patterns. t = ''authentication'' \<or> t = ''configuration'' \<or>
      (\<exists>rule \<in> set CATEGORY_PATTERNS. t \<in> set (snd rule))) \<and>
   (\<forall>t \<in> set tag_patterns.
      \<exists>rule \<in> set CATEGORY_PATTERNS. \<exists>p \<in> set (snd rule). sublist p t) \<and>
   ''configuration'' \<in> set tag_patterns \<and>
   \<not> (\<exists>rule \<in> set CATEGORY_PATTERNS. ''configuration'' \<in> set (snd rule)) \<and>
   (\<exists>rule \<in> set CATEGORY_PATTERNS. ''login'' \<in> set (snd rule)) \<and>
   ''login'' \<notin> set tag_patterns"
proof -
  have "''configuration'' \<in> set tag_patterns" "''login'' \<notin> set tag_patterns"
    by (simp_all add: tag_patterns_def)
  moreover have "\<not> (\<exists>rule \<in> set CATEGORY_PATTERNS. ''configuration'' \<in> set (snd rule))"
    "\<exists>rule \<in> set CATEGORY_PATTERNS. ''login'' \<in> set (snd rule)"
    by (simp_all add: CATEGORY_PATTERNS_def)
  ultimately show ?thesis
    using tag_member tag_has_pattern by blast
qed

theorem tag_list_keywords_witness:
  "''ui'' \<in> set tag_patterns \<and>
   (\<exists>rule \<in> set CATEGORY_PATTERNS. ''ui'' \<in> set (snd rule)) \<and>
   ''authentication'' \<in> set tag_patterns \<and>
   (\<exists>rule \<in> set CATEGORY_PATTERNS. \<exists>p \<in> set (snd rule). sublist p ''authentication'')"
proof -
  have ui: "''ui'' \<in> set tag_patterns" and au: "''authentication'' \<in> set tag_patterns"
    by (simp_all add: tag_patterns_def)
  have "''ui'' = ''authentication'' \<or> ''ui'' = ''configuration'' \<or>
      (\<exists>rule \<in> set CATEGORY_PATTERNS. ''ui'' \<in> set (snd rule))"
    using tag_list_keywords [THEN conjunct1, THEN bspec, OF ui] .
  then have a: "\<exists>rule \<in> set CATEGORY_PATTERNS. ''ui'' \<in> set (snd rule)"
    by simp
  have b: "\<exists>rule \<in> set CATEGORY_PATTERNS. \<exists>p \<in> set (snd rule). sublist p ''authentication''"
    using tag_list_keywords [THEN conjunct2, THEN conjunct1, THEN bspec, OF au] .
  from ui a au b show ?thesis by blast
qed


text \<open>
  The tag keyword \<open>authentication\<close> is in no category's keyword set, so the tag list is
  not a subset of the category keywords.
\<close>

theorem tag_list_subset_counterexample:
  "''authentication'' \<in> set tag_patterns \<and>
   \<not> (\<exists>rule \<in> set CATEGORY_PATTERNS. ''authentication'' \<in> set (snd rule)) \<and>
   \<not> (\<forall>t \<in> set tag_patterns. \<exists>rule \<in> set CATEGORY_PATTERNS. t \<in> set (snd rule))"
proof -
  have a: "''authentication'' \<in> set tag_patterns"
    by (simp add: tag_patterns_def)
  have b: "\<not> (\<exists>rule \<in> set CATEGORY_PATTERNS. ''authentication'' \<in> set (snd rule))"
    by (simp add: CATEGORY_PATTERNS_def)
  from a b show ?thesis by blast
qed


text \<open>
  C5. The snapshot of a list of documents has a \<open>document_count\<close> equal to the number of
  documents, and a \<open>documents\<close> array with one entry per document, in order, each with
  the path of its document. Reading the paths back gives the paths of the scan as a
  list, hence as a multiset; when the paths of the scan are distinct, each occurs in the
  snapshot exactly once.
\<close>

theorem snapshot_count_and_paths:
  "field ''document_count'' (update_metadata_json now documents) = Some (JInt (length documents)) \<and>
   (\<exists>entries. field ''documents'' (update_metadata_json now documents) = Some (JList entries) \<and>
      length entries = length documents \<and>
      map (field ''path'') entries = map (\<lambda>doc. Some (JString (path doc))) documents) \<and>
   snapshot_paths (update_metadata_json now documents) = map path documents \<and>
   mset (snapshot_paths (update_metadata_json now documents)) = mset (map path documents) \<and>
   (distinct (map path documents) \<longrightarrow>
      (\<forall>doc \<in> set documents.
         count (mset (snapshot_paths (update_metadata_json now documents))) (path doc) = 1))"
proof (intro conjI impI ballI)
  show "field ''document_count'' (update_metadata_json now documents) = Some (JInt (length documents))"
    by (simp add: field_def update_metadata_json_def)
  show "\<exists>entries. field ''documents'' (update_metadata_json now documents) = Some (JList entries) \<and>
      length entries = length documents \<and>
      map (field ''path'') entries = map (\<lambda>doc. Some (JString (path doc))) documents"
  proof (intro exI conjI)
    show "field ''documents'' (update_metadata_json now documents) =
        Some (JList (map snapshot_entry documents))"
      by (simp add: field_def update_metadata_json_def)
    show "length (map snapshot_entry documents) = length documents"
      by simp
    show "map (field ''path'') (map snapshot_entry documents) =
        map (\<lambda>doc. Some (JString (path doc))) documents"
      by (simp add: field_path_entry)
  qed
  show "snapshot_paths (update_metadata_json now documents) = map path documents"
    by (rule snapshot_paths_eq)
  show "mset (snapshot_paths (update_metadata_json now documents)) = mset (map path documents)"
    by (simp only: snapshot_paths_eq)
next
  fix doc
  assume "distinct (map path documents)" and "doc \<in> set documents"
  then have "count (mset (map path documents)) (path doc) = 1"
    by (simp add: distinct_count_atmost_1)
  then show "count (mset (snapshot_paths (update_metadata_json now documents))) (path doc) = 1"
    by (simp only: snapshot_paths_eq)
qed

theorem snapshot_count_and_paths_witness:
  "distinct (map path
     [\<lparr>title = ''A'', category = ''Security'', tags = [''#api''], summary = ''One.'',
       headers = [], path = ''a.md'', full_path = ''/docs/a.md'', name = ''a.md'',
       modified = \<lparr>year = 2024, month = 1, day = 5, hour = 3, minute = 7, second = 0,
         microsecond = 0\<rparr>, size_bytes = 10\<rparr>,
      \<lparr>title = ''B'', category = ''Uncategorized'', tags = [], summary = [],
       headers = [], path = ''sub/b.md'', full_path = ''/docs/sub/b.md'', name = ''b.md'',
       modified = \<lparr>year = 2024, month = 2, day = 9, hour = 0, minute = 0, second = 0,
         microsecond = 0\<rparr>, size_bytes = 20\<rparr>]) \<and>
   count (mset (snapshot_paths (update_metadata_json
     \<lparr>year = 2024, month = 3, day = 1, hour = 12, minute = 0, second = 0, microsecond = 0\<rparr>
     [\<lparr>title = ''A'', category = ''Security'', tags = [''#api''], summary = ''One.'',
       headers = [], path = ''a.md'', full_path = ''/docs/a.md'', name = ''a.md'',
       modified = \<lparr>year = 2024, month = 1, day = 5, hour = 3, minute = 7, second = 0,
         microsecond = 0\<rparr>, size_bytes = 10\<rparr>,
      \<lparr>title = ''B'', category = ''Uncategorized'', tags = [], summary = [],
       headers = [], path = ''sub/b.md'', full_path = ''/docs/sub/b.md'', name = ''b.md'',
       modified = \<lparr>year = 2024, month = 2, day = 9, hour = 0, minute = 0, second = 0,
         microsecond = 0\<rparr>, size_bytes = 20\<rparr>]))) ''sub/b.md'' = 1 \<and>
   field ''document_count'' (update_metadata_json
     \<lparr>year = 2024, month = 3, day = 1, hour = 12, minute = 0, second = 0, microsecond = 0\<rparr>
     [\<lparr>title = ''A'', category = ''Security'', tags = [''#api''], summary = ''One.'',
       headers = [], path = ''a.md'', full_path = ''/docs/a.md'', name = ''a.md'',
       modified = \<lparr>year = 2024, month = 1, day = 5, hour = 3, minute = 7, second = 0,
         microsecond = 0\<rparr>, size_bytes = 10\<rparr>,
      \<lparr>title = ''B'', category = ''Uncategorized'', tags = [], summary = [],
       headers = [], path = ''sub/b.md'', full_path = ''/docs/sub/b.md'', name = ''b.md'',
       modified = \<lparr>year = 2024, month = 2, day = 9, hour = 0, minute = 0, second = 0,
         microsecond = 0\<rparr>, size_bytes = 20\<rparr>]) = Some (JInt 2)"
proof -
  let ?a = "\<lparr>title = ''A'', category = ''Security'', tags = [''#api''], summary = ''One.'',
       headers = [], path = ''a.md'', full_path = ''/docs/a.md'', name = ''a.md'',
       modified = \<lparr>year = 2024, month = 1, day = 5, hour = 3, minute = 7, second = 0,
         microsecond = 0\<rparr>, size_bytes = 10\<rparr>"
  let ?b = "\<lparr>title = ''B'', category = ''Uncategorized'', tags = [], summary = [],
       headers = [], path = ''sub/b.md'', full_path = ''/docs/sub/b.md'', name = ''b.md'',
       modified = \<lparr>year = 2024, month = 2, day = 9, hour = 0, minute = 0, second = 0,
         microsecond = 0\<rparr>, size_bytes = 20\<rparr>"
  let ?now = "\<lparr>year = 2024, month = 3, day = 1, hour = 12, minute = 0, second = 0, microsecond = 0\<rparr>"
  have d: "distinct (map path [?a, ?b])"
    by simp
  have b: "?b \<in> set [?a, ?b]"
    by simp
  have "count (mset (snapshot_paths (update_metadata_json ?now [?a, ?b]))) (path ?b) = 1"
    using snapshot_count_and_paths [of ?now "[?a, ?b]", THEN conjunct2, THEN conjunct2,
        THEN conjunct2, THEN conjunct2, rule_format, OF d b] .
  moreover have "field ''document_count'' (update_metadata_json ?now [?a, ?b]) = Some (JInt 2)"
    using snapshot_count_and_paths [of ?now "[?a, ?b]", THEN conjunct1] by simp
  ultimately show ?thesis
    using d by simp
qed


text \<open>
  C10. The Quick Access section of the index of \<open>n\<close> documents has \<open>min(5, n)\<close> entries,
  each the entry of a document of the list; with at most five documents, every document
  has its entry there. The entries stand in the index between the heading of the
  section and the heading of the next.
\<close>

theorem quick_access_count:
  "length (quick_access (sorted_by_date documents)) = min 5 (length documents) \<and>
   mset (quick_access (sorted_by_date documents)) \<subseteq># image_mset quick_entry (mset documents) \<and>
   (length documents \<le> 5 \<longrightarrow>
      mset (quick_access (sorted_by_date documents)) = image_mset quick_entry (mset documents)) \<and>
   (\<exists>post. \<forall>now. generate_index now documents =
      Inr (index_head @ strftime_minute now @ [nl] @
           ''> Total Documents: '' @ str_nat (length documents) @ [nl, nl] @
           ''## '' @ TARGET @ '' Quick Access'' @ [nl] @
           concat (quick_access (sorted_by_date documents)) @
           [nl] @ ''## '' @ FOLDER @ '' By Category'' @ [nl, nl] @ post))"
proof (intro conjI impI)
  show "length (quick_access (sorted_by_date documents)) = min 5 (length documents)"
    by (simp add: quick_access_def length_sorted_by_date min.commute)
  have "mset (take 5 (sorted_by_date documents)) \<subseteq># mset documents"
    using mset_take_subset [of 5 "sorted_by_date documents"] by (simp add: mset_sorted_by_date)
  then show "mset (quick_access (sorted_by_date documents)) \<subseteq># image_mset quick_entry (mset documents)"
    unfolding quick_access_def mset_map by (rule image_mset_subseteq_mono)
next
  assume "length documents \<le> 5"
  then have "take 5 (sorted_by_date documents) = sorted_by_date documents"
    by (simp add: length_sorted_by_date)
  then show "mset (quick_access (sorted_by_date documents)) = image_mset quick_entry (mset documents)"
    by (simp add: quick_access_def mset_sorted_by_date)
next
  obtain a where a: "category_sections (group_by_category documents)
      (sort (map fst (group_by_category documents))) = Inr a"
    using category_sections_total [of "sort (map fst (group_by_category documents))"
        "group_by_category documents"]
    by auto
  obtain b where b: "last_update (sorted_by_date documents) = Inr b"
    using last_update_total by blast
  obtain c where c: "largest_document documents = Inr c"
    using largest_document_total by blast
  show "\<exists>post. \<forall>now. generate_index now documents =
      Inr (index_head @ strftime_minute now @ [nl] @
           ''> Total Documents: '' @ str_nat (length documents) @ [nl, nl] @
           ''## '' @ TARGET @ '' Quick Access'' @ [nl] @
           concat (quick_access (sorted_by_date documents)) @
           [nl] @ ''## '' @ FOLDER @ '' By Category'' @ [nl, nl] @ post)"
    by (simp add: generate_index_def index_rest_def Let_def a b c del: str_nat.simps)
qed

theorem quick_access_count_witness:
  "length [\<lparr>title = ''A'', category = ''Security'', tags = [''#api''], summary = ''One.'',
       headers = [], path = ''a.md'', full_path = ''/docs/a.md'', name = ''a.md'',
       modified = \<lparr>year = 2024, month = 1, day = 5, hour = 3, minute = 7, second = 0,
         microsecond = 0\<rparr>, size_bytes = 10\<rparr>,
      \<lparr>title = ''B'', category = ''Uncategorized'', tags = [], summary = [],
       headers = [], path = ''sub/b.md'', full_path = ''/docs/sub/b.md'', name = ''b.md'',
       modified = \<lparr>year = 2024, month = 2, day = 9, hour = 0, minute = 0, second = 0,
         microsecond = 0\<rparr>, size_bytes = 20\<rparr>] \<le> 5 \<and>
   quick_access (sorted_by_date [\<lparr>title = ''A'', category = ''Security'', tags = [''#api''], summary = ''One.'',
       headers = [], path = ''a.md'', full_path = ''/docs/a.md'', name = ''a.md'',
       modified = \<lparr>year = 2024, month = 1, day = 5, hour = 3, minute = 7, second = 0,
         microsecond = 0\<rparr>, size_bytes = 10\<rparr>,
      \<lparr>title = ''B'', category = ''Uncategorized'', tags = [], summary = [],
       headers = [], path = ''sub/b.md'', full_path = ''/docs/sub/b.md'', name = ''b.md'',
       modified = \<lparr>year = 2024, month = 2, day = 9, hour = 0, minute = 0, second = 0,
         microsecond = 0\<rparr>, size_bytes = 20\<rparr>]) =
     [''- [B](sub/b.md) - 2024-02-09'' @ [nl], ''- [A](a.md) - 2024-01-05'' @ [nl]] \<and>
   mset (quick_access (sorted_by_date [\<lparr>title = ''A'', category = ''Security'', tags = [''#api''], summary = ''One.'',
       headers = [], path = ''a.md'', full_path = ''/docs/a.md'', name = ''a.md'',
       modified = \<lparr>year = 2024, month = 1, day = 5, hour = 3, minute = 7, second = 0,
         microsecond = 0\<rparr>, size_bytes = 10\<rparr>,
      \<lparr>title = ''B'', category = ''Uncategorized'', tags = [], summary = [],
       headers = [], path = ''sub/b.md'', full_path = ''/docs/sub/b.md'', name = ''b.md'',
       modified = \<lparr>year = 2024, month = 2, day = 9, hour = 0, minute = 0, second = 0,
         microsecond = 0\<rparr>, size_bytes = 20\<rparr>])) = image_mset quick_entry (mset [\<lparr>title = ''A'', category = ''Security'', tags = [''#api''], summary = ''One.'',
       headers = [], path = ''a.md'', full_path = ''/docs/a.md'', name = ''a.md'',
       modified = \<lparr>year = 2024, month = 1, day = 5, hour = 3, minute = 7, second = 0,
         microsecond = 0\<rparr>, size_bytes = 10\<rparr>,
      \<lparr>title = ''B'', category = ''Uncategorized'', tags = [], summary = [],
       headers = [], path = ''sub/b.md'', full_path = ''/docs/sub/b.md'', name = ''b.md'',
       modified = \<lparr>year = 2024, month = 2, day = 9, hour = 0, minute = 0, second = 0,
         microsecond = 0\<rparr>, size_bytes = 20\<rparr>])"
proof -
  let ?a = "\<lparr>title = ''A'', category = ''Security'', tags = [''#api''], summary = ''One.'',
       headers = [], path = ''a.md'', full_path = ''/docs/a.md'', name = ''a.md'',
       modified = \<lparr>year = 2024, month = 1, day = 5, hour = 3, minute = 7, second = 0,
         microsecond = 0\<rparr>, size_bytes = 10\<rparr>"
  let ?b = "\<lparr>title = ''B'', category = ''Uncategorized'', tags = [], summary = [],
       headers = [], path = ''sub/b.md'', full_path = ''/docs/sub/b.md'', name = ''b.md'',
       modified = \<lparr>year = 2024, month = 2, day = 9, hour = 0, minute = 0, second = 0,
         microsecond = 0\<rparr>, size_bytes = 20\<rparr>"
  have l: "length [?a, ?b] \<le> 5"
    by simp
  have q: "quick_access (sorted_by_date [?a, ?b]) =
     [''- [B](sub/b.md) - 2024-02-09'' @ [nl], ''- [A](a.md) - 2024-01-05'' @ [nl]]"
    by code_simp
  have "mset (quick_access (sorted_by_date [?a, ?b])) = image_mset quick_entry (mset [?a, ?b])"
    using quick_access_count [of "[?a, ?b]", THEN conjunct2, THEN conjunct2, THEN conjunct1,
        rule_format, OF l] .
  with l q show ?thesis by blast
qed

end
